theory Spec2Isabelle
  imports Main "HOL-Library.Word"
begin

section \<open>The connection adapter of conn.go\<close>

text \<open>
  \<^verbatim>\<open>Conn\<close> wraps a \<^verbatim>\<open>net.Conn\<close> and an OpenSSL handle that only talks to two memory
  BIOs. The engine (\<^verbatim>\<open>C.SSL_*\<close>), the transport (\<^verbatim>\<open>net.Conn\<close>) and the two BIOs
  (\<^verbatim>\<open>readBio\<close>, \<^verbatim>\<open>writeBio\<close>) are collaborators of the adapter: what each call on
  them answers is an input of the model, given as a function of the number of calls made
  so far, and every call is written to a trace. The adapter's own control flow (the
  classifier \<^verbatim>\<open>getErrorHandler\<close>, the retry loops, \<^verbatim>\<open>Close\<close>) is translated
  function by function.
\<close>

subsection \<open>Errors\<close>

text \<open>
  Go's \<^verbatim>\<open>error\<close> values. \<^verbatim>\<open>EOF\<close> and \<^verbatim>\<open>ErrUnexpectedEOF\<close> are the two values of
  package \<^verbatim>\<open>io\<close> the code compares with; \<^verbatim>\<open>zeroReturn\<close>, \<^verbatim>\<open>wantRead\<close>,
  \<^verbatim>\<open>wantWrite\<close> and \<^verbatim>\<open>tryAgain\<close> are the package's own variables;
  \<^verbatim>\<open>errors_New s\<close> is \<^verbatim>\<open>errors.New(s)\<close>; \<^verbatim>\<open>Foreign k\<close> stands for any other
  error a collaborator hands over (a platform errno, a transport error, an entry of
  the engine's error queue). A nil error is \<open>None\<close>.
\<close>

datatype error =
    EOF
  | ErrUnexpectedEOF
  | zeroReturn
  | wantRead
  | wantWrite
  | tryAgain
  | errors_New string
  | Foreign nat
  | ErrorGroup "error list"

type_synonym byte = "8 word"

subsection \<open>What the collaborators answer\<close>

text \<open>The values of \<^verbatim>\<open>SSL_get_error\<close> (openssl/ssl.h).\<close>

datatype ssl_error =
    SSL_ERROR_NONE
  | SSL_ERROR_SSL
  | SSL_ERROR_WANT_READ
  | SSL_ERROR_WANT_WRITE
  | SSL_ERROR_WANT_X509_LOOKUP
  | SSL_ERROR_SYSCALL
  | SSL_ERROR_ZERO_RETURN
  | SSL_ERROR_WANT_CONNECT
  | SSL_ERROR_WANT_ACCEPT

text \<open>
  One engine step as the adapter sees it: the \<^verbatim>\<open>C.int\<close> return value and the errno
  that cgo captured with it (nil when the C errno was 0), and what the three queries
  of \<^verbatim>\<open>getErrorHandler\<close> answer after that step: \<^verbatim>\<open>SSL_get_error(c.ssl, rv)\<close>,
  \<^verbatim>\<open>ERR_peek_error()\<close> and \<^verbatim>\<open>errorFromErrorQueue()\<close>. The return value is only
  compared with 0 and -1, so it is an \<open>int\<close>.
\<close>

record step_result =
  sr_rv :: int
  sr_errno :: "error option"
  sr_errcode :: ssl_error
  sr_peek_error :: nat
  sr_queue_error :: error

text \<open>
  Every call on a collaborator, and every lock operation on \<^verbatim>\<open>c.mtx\<close>, in the order
  the adapter makes them. \<^verbatim>\<open>go_flushOutputBuffer\<close> is the statement
  \<^verbatim>\<open>go c.flushOutputBuffer()\<close>: it starts a goroutine and goes on; what the goroutine
  does later is not part of the caller's run. \<^verbatim>\<open>runtime.LockOSThread\<close> is left out.
\<close>

datatype event =
    Lock
  | Unlock
  | SSL_do_handshake
  | SSL_read nat
  | SSL_write "byte list"
  | SSL_shutdown
  | ReadFromOnce
  | MarkEOF
  | WriteTo
  | go_flushOutputBuffer
  | conn_Close

subsection \<open>The connection\<close>

text \<open>
  The fields of \<^verbatim>\<open>Conn\<close> that the adapter reads and writes are \<open>is_shutdown\<close> and
  \<open>want_read_future\<close>. \<open>ssl\<close> is the engine: its \<open>k\<close>-th step answers \<open>ssl c k\<close>,
  and \<open>ssl_steps\<close> counts the steps made. \<open>net_read\<close>, \<open>net_write\<close> and
  \<open>net_close\<close> are the transport as the adapter reaches it, through
  \<^verbatim>\<open>into_ssl.ReadFromOnce(c.conn)\<close> (bytes read and error),
  \<^verbatim>\<open>from_ssl.WriteTo(c.conn)\<close> (error) and \<^verbatim>\<open>c.conn.Close()\<close> (error), with their
  call counters. The two BIOs are defined in bio.go, which is not among the sources: the
  results of their calls are taken as they come, and of their state only the
  end-of-stream mark that \<^verbatim>\<open>into_ssl.MarkEOF()\<close> sets is kept, as \<open>into_ssl_eof\<close>.
\<close>

text \<open>
  Modelled from the spec: \<^verbatim>\<open>utils.Future\<close> (package utils is not among the sources), "a
  single-assignment, multi-waiter completion handle". A \<^verbatim>\<open>*utils.Future\<close> is an
  address; \<open>futures\<close> is the store of futures (\<open>None\<close>: not set yet, \<open>Some e\<close>: set
  with the error \<open>e\<close>) and \<open>next_future\<close> the address \<^verbatim>\<open>utils.NewFuture()\<close> returns
  next. \<^verbatim>\<open>Get\<close> returns the error the future was set with, and does not return while
  it is not set; \<^verbatim>\<open>Set\<close> stores the error.
\<close>

record conn =
  is_shutdown :: bool
  want_read_future :: "nat option"
  futures :: "nat \<Rightarrow> error option option"
  next_future :: nat
  into_ssl_eof :: bool
  ssl :: "nat \<Rightarrow> step_result"
  ssl_steps :: nat
  net_read :: "nat \<Rightarrow> nat \<times> error option"
  reads :: nat
  net_write :: "nat \<Rightarrow> error option"
  writes :: nat
  net_close :: "nat \<Rightarrow> error option"
  closes :: nat
  trace :: "event list"

definition log :: "event \<Rightarrow> conn \<Rightarrow> conn" where
  "log e c = c\<lparr>trace := trace c @ [e]\<rparr>"

text \<open>One engine step: the engine's next answer, the step counted and traced.\<close>

definition step :: "event \<Rightarrow> conn \<Rightarrow> step_result \<times> conn" where
  "step e c = (ssl c (ssl_steps c), log e (c\<lparr>ssl_steps := Suc (ssl_steps c)\<rparr>))"

text \<open>\<^verbatim>\<open>c.into_ssl.ReadFromOnce(c.conn)\<close>: one read of the transport into the inbound BIO.\<close>

definition ReadFromOnce_call :: "conn \<Rightarrow> (nat \<times> error option) \<times> conn" where
  "ReadFromOnce_call c = (net_read c (reads c), log ReadFromOnce (c\<lparr>reads := Suc (reads c)\<rparr>))"

text \<open>\<^verbatim>\<open>c.into_ssl.MarkEOF()\<close>.\<close>

definition MarkEOF_call :: "conn \<Rightarrow> conn" where
  "MarkEOF_call c = log MarkEOF (c\<lparr>into_ssl_eof := True\<rparr>)"

text \<open>\<^verbatim>\<open>c.conn.Close()\<close>.\<close>

definition conn_Close_call :: "conn \<Rightarrow> error option \<times> conn" where
  "conn_Close_call c = (net_close c (closes c), log conn_Close (c\<lparr>closes := Suc (closes c)\<rparr>))"

text \<open>
  \<^verbatim>\<open>func (c *Conn) flushOutputBuffer() error\<close>: one \<^verbatim>\<open>c.from_ssl.WriteTo(c.conn)\<close>,
  whose error is returned.
\<close>

definition flushOutputBuffer :: "conn \<Rightarrow> error option \<times> conn" where
  "flushOutputBuffer c = (net_write c (writes c), log WriteTo (c\<lparr>writes := Suc (writes c)\<rparr>))"

subsection \<open>The error group of Close\<close>

text \<open>
  Modelled from the spec: \<^verbatim>\<open>utils.ErrorGroup\<close> (package utils is not among the
  sources). Close adds two results to a group and finalizes it; the spec says the two
  results are aggregated "into one combined error (if either step failed)". So a nil
  result adds nothing, and the group finalizes to nil when it is empty and to one error
  holding its members otherwise.
\<close>

definition Add :: "error list \<Rightarrow> error option \<Rightarrow> error list" where
  "Add errs err = (case err of None \<Rightarrow> errs | Some e \<Rightarrow> errs @ [e])"

definition Finalize :: "error list \<Rightarrow> error option" where
  "Finalize errs = (if errs = [] then None else Some (ErrorGroup errs))"

subsection \<open>The classifier\<close>

text \<open>
  \<^verbatim>\<open>getErrorHandler\<close> returns a closure. The five closures it can return are the
  constructors of \<open>handler\<close>, each with the variables it captures; \<open>run\<close> below is
  the body of each. A nil \<^verbatim>\<open>func() error\<close> is \<open>None\<close>.
\<close>

datatype handler =
    on_ZERO_RETURN
  | on_WANT_READ_wait nat
  | on_WANT_READ_fill nat
  | on_WANT_WRITE
  | on_error "error option"

definition getErrorHandler :: "conn \<Rightarrow> step_result \<Rightarrow> handler \<times> conn" where
  "getErrorHandler c r =
     (case sr_errcode r of
        SSL_ERROR_ZERO_RETURN \<Rightarrow> (on_ZERO_RETURN, c)
      | SSL_ERROR_WANT_READ \<Rightarrow>
          (let c1 = log go_flushOutputBuffer c in
           case want_read_future c1 of
             Some f \<Rightarrow> (on_WANT_READ_wait f, c1)
           | None \<Rightarrow>
               (on_WANT_READ_fill (next_future c1),
                c1\<lparr>want_read_future := Some (next_future c1),
                   next_future := Suc (next_future c1)\<rparr>))
      | SSL_ERROR_WANT_WRITE \<Rightarrow> (on_WANT_WRITE, c)
      | SSL_ERROR_SYSCALL \<Rightarrow>
          (on_error
             (if sr_peek_error r = 0 then
                (if sr_rv r = 0 then Some (errors_New ''protocol-violating EOF'')
                 else if sr_rv r = - 1 then sr_errno r
                 else Some (sr_queue_error r))
              else Some (sr_queue_error r)),
           c)
      | _ \<Rightarrow> (on_error (Some (sr_queue_error r)), c))"

subsection \<open>One guarded engine step\<close>

text \<open>
  \<^verbatim>\<open>shutdown\<close>, \<^verbatim>\<open>handshake\<close>, \<^verbatim>\<open>read\<close> and \<^verbatim>\<open>write\<close> take the mutex, make one
  engine step and return the handler to run once the mutex is released (the deferred
  \<^verbatim>\<open>Unlock\<close> runs after \<^verbatim>\<open>getErrorHandler\<close>). \<open>Conn_write\<close> is \<^verbatim>\<open>write\<close>, a word
  Isabelle reserves.
\<close>

definition shutdown :: "conn \<Rightarrow> handler option \<times> conn" where
  "shutdown c =
     (case step SSL_shutdown (log Lock c) of (r, c1) \<Rightarrow>
        if sr_rv r > 0 then (None, log Unlock c1)
        else if sr_rv r = 0 then (None, log Unlock c1)
        else (case getErrorHandler c1 r of (h, c2) \<Rightarrow> (Some h, log Unlock c2)))"

definition handshake :: "conn \<Rightarrow> handler option \<times> conn" where
  "handshake c =
     (let c0 = log Lock c in
      if is_shutdown c0 then (Some (on_error (Some ErrUnexpectedEOF)), log Unlock c0)
      else (case step SSL_do_handshake c0 of (r, c1) \<Rightarrow>
        if sr_rv r > 0 then (None, log Unlock c1)
        else (case getErrorHandler c1 r of (h, c2) \<Rightarrow> (Some h, log Unlock c2))))"

definition read :: "conn \<Rightarrow> byte list \<Rightarrow> (int \<times> handler option) \<times> conn" where
  "read c b =
     (if length b = 0 then ((0, None), c)
      else let c0 = log Lock c in
        if is_shutdown c0 then ((0, Some (on_error (Some EOF))), log Unlock c0)
        else (case step (SSL_read (length b)) c0 of (r, c1) \<Rightarrow>
          if sr_rv r > 0 then ((sr_rv r, None), log Unlock c1)
          else (case getErrorHandler c1 r of (h, c2) \<Rightarrow> ((0, Some h), log Unlock c2))))"

definition Conn_write :: "conn \<Rightarrow> byte list \<Rightarrow> (int \<times> handler option) \<times> conn" where
  "Conn_write c b =
     (if length b = 0 then ((0, None), c)
      else let c0 = log Lock c in
        if is_shutdown c0 then
          ((0, Some (on_error (Some (errors_New ''connection closed'')))), log Unlock c0)
        else (case step (SSL_write b) c0 of (r, c1) \<Rightarrow>
          if sr_rv r > 0 then ((sr_rv r, None), log Unlock c1)
          else (case getErrorHandler c1 r of (h, c2) \<Rightarrow> ((0, Some h), log Unlock c2))))"

subsection \<open>Close, the shutdown loop, the fill and the handlers\<close>

text \<open>
  These call each other: \<^verbatim>\<open>Close\<close> runs \<^verbatim>\<open>shutdownLoop\<close>, which runs a handler,
  which calls \<^verbatim>\<open>Close\<close> (clean close) or \<^verbatim>\<open>fillInputBuffer\<close> (need more input),
  which calls \<^verbatim>\<open>Close\<close> at the transport's EOF. \<^verbatim>\<open>fillInputBuffer\<close> loops for as
  long as the transport answers \<^verbatim>\<open>(0, nil)\<close>, and a wait on a future that nobody sets
  does not return. So each function takes fuel \<open>k\<close> and answers \<open>None\<close> for a call
  that does not return within it: one unit is used where a loop goes round again and
  where a handler calls into \<^verbatim>\<open>Close\<close> or \<^verbatim>\<open>fillInputBuffer\<close>; a wait on an unset
  future is \<open>None\<close> with any fuel. \<open>Some\<close> is a call that returned.

  \<open>run\<close> is the body of the closure. In \<open>on_WANT_READ_fill\<close> the result \<^verbatim>\<open>err\<close> is
  a named result: \<^verbatim>\<open>return tryAgain\<close> assigns it before the deferred function runs,
  so the future is set with \<^verbatim>\<open>tryAgain\<close> when the fill succeeded.
  \<open>shutdownLoop_from k tries\<close> is the \<^verbatim>\<open>for err == tryAgain\<close> loop of
  \<^verbatim>\<open>shutdownLoop\<close> at its head, \<open>tries\<close> being \<^verbatim>\<open>shutdown_tries\<close>.
\<close>

fun Close :: "nat \<Rightarrow> conn \<Rightarrow> (error option \<times> conn) option"
  and shutdownLoop_from :: "nat \<Rightarrow> nat \<Rightarrow> conn \<Rightarrow> (error option \<times> conn) option"
  and handleError :: "nat \<Rightarrow> handler option \<Rightarrow> conn \<Rightarrow> (error option \<times> conn) option"
  and run :: "nat \<Rightarrow> handler \<Rightarrow> conn \<Rightarrow> (error option \<times> conn) option"
  and fillInputBuffer :: "nat \<Rightarrow> conn \<Rightarrow> (error option \<times> conn) option"
where
  "Close k c =
     (let c0 = log Lock c in
      if is_shutdown c0 then Some (None, log Unlock c0)
      else
        (case shutdownLoop_from k 0 (log Unlock (c0\<lparr>is_shutdown := True\<rparr>)) of
           None \<Rightarrow> None
         | Some (e1, c1) \<Rightarrow>
             (case conn_Close_call c1 of (e2, c2) \<Rightarrow>
                Some (Finalize (Add (Add [] e1) e2), c2))))"
| "shutdownLoop_from k tries c =
     (case shutdown c of (errcb, c1) \<Rightarrow>
        (case handleError k errcb c1 of
           None \<Rightarrow> None
         | Some (err, c2) \<Rightarrow>
             if err = None then Some (flushOutputBuffer c2)
             else if err = Some tryAgain \<and> tries + 1 \<ge> 2 then
               Some (Some (errors_New ''shutdown requested a third time?''), c2)
             else if err = Some tryAgain then
               (case k of 0 \<Rightarrow> None | Suc k' \<Rightarrow> shutdownLoop_from k' (tries + 1) c2)
             else Some (if err = Some ErrUnexpectedEOF then None else err, c2)))"
| "handleError k errcb c =
     (case errcb of Some h \<Rightarrow> run k h c | None \<Rightarrow> Some (None, c))"
| "run k on_ZERO_RETURN c =
     (case k of
        0 \<Rightarrow> None
      | Suc k' \<Rightarrow>
          (case Close k' c of
             None \<Rightarrow> None
           | Some (_, c1) \<Rightarrow> Some (Some ErrUnexpectedEOF, c1)))"
| "run k (on_WANT_READ_wait f) c =
     (case futures c f of
        None \<Rightarrow> None
      | Some err \<Rightarrow> Some (err, c))"
| "run k (on_WANT_READ_fill f) c =
     (case k of
        0 \<Rightarrow> None
      | Suc k' \<Rightarrow>
          (case fillInputBuffer k' c of
             None \<Rightarrow> None
           | Some (e, c1) \<Rightarrow>
               (let err = (if e \<noteq> None then e else Some tryAgain);
                    c2 = log Unlock ((log Lock c1)\<lparr>want_read_future := None\<rparr>)
                in Some (err, c2\<lparr>futures := (futures c2)(f := Some err)\<rparr>))))"
| "run k on_WANT_WRITE c =
     (case flushOutputBuffer c of (e, c1) \<Rightarrow>
        Some (if e \<noteq> None then e else Some tryAgain, c1))"
| "run k (on_error err) c = Some (err, c)"
| "fillInputBuffer k c =
     (case ReadFromOnce_call c of ((n, err), c1) \<Rightarrow>
        if n = 0 \<and> err = None then
          (case k of 0 \<Rightarrow> None | Suc k' \<Rightarrow> fillInputBuffer k' c1)
        else if err = Some EOF then Close k (MarkEOF_call c1)
        else Some (err, c1))"

declare Close.simps [simp del]
declare shutdownLoop_from.simps [simp del]
declare fillInputBuffer.simps [simp del]

text \<open>\<^verbatim>\<open>shutdownLoop\<close> enters the loop with \<^verbatim>\<open>shutdown_tries = 0\<close>.\<close>

definition shutdownLoop :: "nat \<Rightarrow> conn \<Rightarrow> (error option \<times> conn) option" where
  "shutdownLoop k c = shutdownLoop_from k 0 c"

subsection \<open>Handshake, Read and Write\<close>

text \<open>
  The three \<^verbatim>\<open>for err == tryAgain\<close> loops. They go round for as long as the handler
  answers \<^verbatim>\<open>tryAgain\<close>; one unit of fuel per further round.
\<close>

fun Handshake :: "nat \<Rightarrow> conn \<Rightarrow> (error option \<times> conn) option" where
  "Handshake k c =
     (case handshake c of (errcb, c1) \<Rightarrow>
        (case handleError k errcb c1 of
           None \<Rightarrow> None
         | Some (err, c2) \<Rightarrow>
             if err = Some tryAgain then
               (case k of 0 \<Rightarrow> None | Suc k' \<Rightarrow> Handshake k' c2)
             else Some (err, log go_flushOutputBuffer c2)))"

fun Read_loop :: "nat \<Rightarrow> conn \<Rightarrow> byte list \<Rightarrow> ((int \<times> error option) \<times> conn) option" where
  "Read_loop k c b =
     (case read c b of ((n, errcb), c1) \<Rightarrow>
        (case handleError k errcb c1 of
           None \<Rightarrow> None
         | Some (err, c2) \<Rightarrow>
             if err = None then Some ((n, None), log go_flushOutputBuffer c2)
             else if err = Some ErrUnexpectedEOF then Some ((0, Some EOF), c2)
             else if err = Some tryAgain then
               (case k of 0 \<Rightarrow> None | Suc k' \<Rightarrow> Read_loop k' c2 b)
             else Some ((0, err), c2)))"

definition Read :: "nat \<Rightarrow> conn \<Rightarrow> byte list \<Rightarrow> ((int \<times> error option) \<times> conn) option" where
  "Read k c b = (if length b = 0 then Some ((0, None), c) else Read_loop k c b)"

fun Write_loop :: "nat \<Rightarrow> conn \<Rightarrow> byte list \<Rightarrow> ((int \<times> error option) \<times> conn) option" where
  "Write_loop k c b =
     (case Conn_write c b of ((n, errcb), c1) \<Rightarrow>
        (case handleError k errcb c1 of
           None \<Rightarrow> None
         | Some (err, c2) \<Rightarrow>
             if err = None then
               (case flushOutputBuffer c2 of (e, c3) \<Rightarrow> Some ((n, e), c3))
             else if err = Some tryAgain then
               (case k of 0 \<Rightarrow> None | Suc k' \<Rightarrow> Write_loop k' c2 b)
             else Some ((0, err), c2)))"

definition Write :: "nat \<Rightarrow> conn \<Rightarrow> byte list \<Rightarrow> ((int \<times> error option) \<times> conn) option" where
  "Write k c b = (if length b = 0 then Some ((0, None), c) else Write_loop k c b)"

declare Handshake.simps [simp del]
declare Read_loop.simps [simp del]
declare Write_loop.simps [simp del]

subsection \<open>Sample connections\<close>

text \<open>
  Concrete inputs for the examples below. \<open>answer v code peek\<close> is an engine step that
  returns \<open>v\<close> and classifies as \<open>code\<close>, with errno \<open>Foreign 1\<close> and
  \<open>Foreign 2\<close> at the head of the engine's error queue, which \<^verbatim>\<open>ERR_peek_error\<close>
  reports according to \<open>peek\<close>. \<open>sample r rd wr cl\<close> is a connection as \<^verbatim>\<open>newConn\<close>
  leaves it, whose engine answers \<open>r\<close> to every step and whose transport answers
  \<open>rd\<close> to every read, \<open>wr\<close> to every write and \<open>cl\<close> to every close.
\<close>

definition answer :: "int \<Rightarrow> ssl_error \<Rightarrow> nat \<Rightarrow> step_result" where
  "answer v code peek =
     \<lparr>sr_rv = v, sr_errno = Some (Foreign 1), sr_errcode = code,
      sr_peek_error = peek, sr_queue_error = Foreign 2\<rparr>"

definition sample :: "step_result \<Rightarrow> nat \<times> error option \<Rightarrow> error option \<Rightarrow> error option \<Rightarrow> conn" where
  "sample r rd wr cl =
     \<lparr>is_shutdown = False, want_read_future = None, futures = (\<lambda>f. None), next_future = 0,
      into_ssl_eof = False, ssl = (\<lambda>i. r), ssl_steps = 0, net_read = (\<lambda>i. rd), reads = 0,
      net_write = (\<lambda>i. wr), writes = 0, net_close = (\<lambda>i. cl), closes = 0, trace = []\<rparr>"

text \<open>
  \<open>sample_then r0 r rd wr cl\<close> is the same with an engine that answers \<open>r0\<close> to its
  first step and \<open>r\<close> to every later one.
\<close>

definition sample_then ::
  "step_result \<Rightarrow> step_result \<Rightarrow> nat \<times> error option \<Rightarrow> error option \<Rightarrow> error option \<Rightarrow> conn" where
  "sample_then r0 r rd wr cl = (sample r rd wr cl)\<lparr>ssl := (\<lambda>i. if i = 0 then r0 else r)\<rparr>"

subsection \<open>What a call leaves as it was\<close>

text \<open>
  \<open>frame c c'\<close> relates a connection to the same connection after a call: the
  shutdown flag and the end-of-stream mark are never reset, the transport is not closed
  again once the flag is set, the counters only grow and the collaborators stay the same.
\<close>

definition frame :: "conn \<Rightarrow> conn \<Rightarrow> bool" where
  "frame c c' \<longleftrightarrow>
     (is_shutdown c \<longrightarrow> is_shutdown c' \<and> closes c' = closes c) \<and>
     (into_ssl_eof c \<longrightarrow> into_ssl_eof c') \<and>
     ssl_steps c \<le> ssl_steps c' \<and> reads c \<le> reads c' \<and> writes c \<le> writes c' \<and>
     closes c \<le> closes c' \<and>
     ssl c' = ssl c \<and> net_read c' = net_read c \<and> net_write c' = net_write c \<and>
     net_close c' = net_close c"

text \<open>
  \<open>quiet c c'\<close> is what a fill leaves of a connection that is shut down: the flag, the
  engine, the close counter and the futures are as before; only the transport was read.
\<close>

definition quiet :: "conn \<Rightarrow> conn \<Rightarrow> bool" where
  "quiet c c' \<longleftrightarrow>
     is_shutdown c' \<and> ssl_steps c' = ssl_steps c \<and> closes c' = closes c \<and>
     want_read_future c' = want_read_future c \<and> futures c' = futures c \<and>
     next_future c' = next_future c \<and> net_read c' = net_read c \<and> reads c \<le> reads c'"

subsection \<open>A shutdown step that asks for input\<close>

text \<open>
  The answers of the engine to which \<^verbatim>\<open>shutdown\<close> returns a handler that reads the
  transport or waits for a read of it: \<^verbatim>\<open>SSL_shutdown\<close> returned less than 0 (so that
  \<^verbatim>\<open>getErrorHandler\<close> is asked) and the step is classified \<^verbatim>\<open>SSL_ERROR_WANT_READ\<close>.
\<close>

definition asks_input :: "step_result \<Rightarrow> bool" where
  "asks_input r \<longleftrightarrow> sr_rv r < 0 \<and> sr_errcode r = SSL_ERROR_WANT_READ"

section \<open>Properties\<close>

subsection \<open>Invariants of the mutually recursive calls\<close>

text \<open>
  Every call of \<^verbatim>\<open>Close\<close>, the shutdown loop, a handler or \<^verbatim>\<open>fillInputBuffer\<close> that
  returns leaves the connection in the frame of where it started, and \<^verbatim>\<open>Close\<close> leaves
  the shutdown flag set. By induction along the calls.
\<close>

lemma frame_refl [simp]: "frame c c"
  by (simp add: frame_def)

lemma frame_trans: "frame a b \<Longrightarrow> frame b c \<Longrightarrow> frame a c"
  by (auto simp: frame_def)

lemma frame_log [simp]: "frame c (log e c)"
  by (simp add: frame_def log_def)

lemma frame_shutdown: "shutdown c = (h, c') \<Longrightarrow> frame c c'"
  by (auto simp: shutdown_def step_def getErrorHandler_def frame_def log_def Let_def
      split: if_splits ssl_error.splits option.splits prod.splits)

lemma frame_flush: "flushOutputBuffer c = (e, c') \<Longrightarrow> frame c c'"
  by (auto simp: flushOutputBuffer_def frame_def log_def)

lemma frame_all:
  "Close k c = Some (e, c') \<Longrightarrow> frame c c' \<and> is_shutdown c'"
  "shutdownLoop_from k t c = Some (e, c') \<Longrightarrow> frame c c'"
  "handleError k cb c = Some (e, c') \<Longrightarrow> frame c c'"
  "run k h c = Some (e, c') \<Longrightarrow> frame c c'"
  "fillInputBuffer k c = Some (e, c') \<Longrightarrow> frame c c'"
proof (induction k c and k t c and k cb c and k h c and k c arbitrary: e c' and e c' and e c' and e c' and e c'
    rule: Close_shutdownLoop_from_handleError_run_fillInputBuffer.induct)
  case (1 k c)
  show ?case
  proof (cases "is_shutdown c")
    case True
    with "1.prems" show ?thesis
      by (auto simp: Close.simps[of k c] Let_def log_def frame_def)
  next
    case False
    with "1.prems" obtain e1 c1 where
      sl: "shutdownLoop_from k 0 (log Unlock ((log Lock c)\<lparr>is_shutdown := True\<rparr>)) = Some (e1, c1)"
      and c': "c' = snd (conn_Close_call c1)"
      by (auto simp: Close.simps[of k c] Let_def log_def split: option.splits prod.splits)
    from False have "\<not> is_shutdown (log Lock c)" by (simp add: log_def)
    from "1.IH"[OF refl this sl]
    have "frame (log Unlock ((log Lock c)\<lparr>is_shutdown := True\<rparr>)) c1" .
    then show ?thesis using c' False
      by (auto simp: frame_def log_def conn_Close_call_def)
  qed
next
  case (2 k tries c)
  obtain errcb c1 where sd: "shutdown c = (errcb, c1)" by (cases "shutdown c")
  with "2.prems" obtain err c2 where he: "handleError k errcb c1 = Some (err, c2)"
    by (auto simp: shutdownLoop_from.simps[of k tries c] split: option.splits)
  have f1: "frame c c1" using sd by (rule frame_shutdown)
  have f2: "frame c1 c2" using "2.IH"(1)[OF sd[symmetric] he] .
  have f12: "frame c c2" using f1 f2 by (rule frame_trans)
  show ?case
  proof (cases "err = Some tryAgain \<and> \<not> 2 \<le> tries + 1")
    case True
    with "2.prems" sd he obtain k' where k: "k = Suc k'"
      and rec: "shutdownLoop_from k' (tries + 1) c2 = Some (e, c')"
      by (auto simp: shutdownLoop_from.simps[of k tries c] split: nat.splits)
    have "frame c2 c'"
      using "2.IH"(2)[OF sd[symmetric] he refl _ _ _ k rec] True by auto
    with f12 show ?thesis by (rule frame_trans)
  next
    case False
    with "2.prems" sd he have "c' = c2 \<or> c' = snd (flushOutputBuffer c2)"
      by (auto simp: shutdownLoop_from.simps[of k tries c] split: if_splits)
    then show ?thesis
    proof
      assume "c' = c2" with f12 show ?thesis by simp
    next
      assume "c' = snd (flushOutputBuffer c2)"
      then have "frame c2 c'" by (simp add: flushOutputBuffer_def frame_def log_def)
      with f12 show ?thesis by (rule frame_trans)
    qed
  qed
next
  case (3 k errcb c)
  then show ?case by (cases errcb) auto
next
  case (4 k c)
  then show ?case by (auto split: nat.splits option.splits)
next
  case (5 k f c)
  then show ?case by (auto split: option.splits)
next
  case (6 k f c)
  from "6.prems" obtain k' e1 c1 where k: "k = Suc k'" and fl: "fillInputBuffer k' c = Some (e1, c1)"
    and c': "c' = (log Unlock ((log Lock c1)\<lparr>want_read_future := None\<rparr>))
              \<lparr>futures := (futures (log Unlock ((log Lock c1)\<lparr>want_read_future := None\<rparr>)))
                 (f := Some (if e1 \<noteq> None then e1 else Some tryAgain))\<rparr>"
    by (auto simp: Let_def split: nat.splits option.splits)
  have "frame c c1" using "6.IH"[OF k fl] .
  moreover have "frame c1 c'" using c' by (simp add: frame_def log_def)
  ultimately show ?case by (rule frame_trans)
next
  case (7 k c)
  then show ?case by (auto split: prod.splits dest: frame_flush)
next
  case (8 k err c)
  then show ?case by auto
next
  case (9 k c)
  obtain n err c1 where rf: "ReadFromOnce_call c = ((n, err), c1)"
    by (cases "ReadFromOnce_call c") auto
  then have f1: "frame c c1" by (auto simp: ReadFromOnce_call_def frame_def log_def)
  show ?case
  proof (cases "n = 0 \<and> err = None")
    case True
    with "9.prems" rf obtain k' where k: "k = Suc k'" and rec: "fillInputBuffer k' c1 = Some (e, c')"
      by (auto simp: fillInputBuffer.simps[of k c] split: nat.splits)
    have "frame c1 c'" using "9.IH"(1)[OF rf[symmetric] refl True k rec] .
    with f1 show ?thesis by (rule frame_trans)
  next
    case nz: False
    show ?thesis
    proof (cases "err = Some EOF")
      case eof: True
      from nz eof "9.prems" rf have cl: "Close k (MarkEOF_call c1) = Some (e, c')"
        by (auto simp: fillInputBuffer.simps[of k c])
      have "frame (MarkEOF_call c1) c'" using "9.IH"(2)[OF rf[symmetric] refl nz eof cl] by simp
      moreover have "frame c1 (MarkEOF_call c1)" by (simp add: MarkEOF_call_def frame_def log_def)
      ultimately show ?thesis using f1 by (blast intro: frame_trans)
    next
      case ne: False
      from "9.prems" have "c' = c1"
        by (simp add: fillInputBuffer.simps[of k c] rf nz ne)
      with f1 show ?thesis by simp
    qed
  qed
qed

text \<open>A call that returns with fuel \<open>k\<close> returns the same with any more fuel.\<close>

lemma fuel_mono:
  "Close k c = Some r \<Longrightarrow> k \<le> j \<Longrightarrow> Close j c = Some r"
  "shutdownLoop_from k t c = Some r \<Longrightarrow> k \<le> j \<Longrightarrow> shutdownLoop_from j t c = Some r"
  "handleError k cb c = Some r \<Longrightarrow> k \<le> j \<Longrightarrow> handleError j cb c = Some r"
  "run k h c = Some r \<Longrightarrow> k \<le> j \<Longrightarrow> run j h c = Some r"
  "fillInputBuffer k c = Some r \<Longrightarrow> k \<le> j \<Longrightarrow> fillInputBuffer j c = Some r"
proof (induction k c and k t c and k cb c and k h c and k c
    arbitrary: r j and r j and r j and r j and r j
    rule: Close_shutdownLoop_from_handleError_run_fillInputBuffer.induct)
  case (1 k c)
  show ?case
  proof (cases "is_shutdown c")
    case True
    with "1.prems" show ?thesis
      by (simp add: Close.simps[of k c] Close.simps[of j c] Let_def log_def)
  next
    case False
    then have ns: "\<not> is_shutdown (log Lock c)" by (simp add: log_def)
    with "1.prems" obtain e1 c1 where
      sl: "shutdownLoop_from k 0 (log Unlock ((log Lock c)\<lparr>is_shutdown := True\<rparr>)) = Some (e1, c1)"
      by (auto simp: Close.simps[of k c] Let_def split: option.splits)
    from "1.IH"[OF refl ns sl "1.prems"(2)]
    have "shutdownLoop_from j 0 (log Unlock ((log Lock c)\<lparr>is_shutdown := True\<rparr>)) = Some (e1, c1)" .
    with sl "1.prems"(1) ns show ?thesis
      by (simp add: Close.simps[of k c] Close.simps[of j c] Let_def)
  qed
next
  case (2 k tries c)
  obtain errcb c1 where sd: "shutdown c = (errcb, c1)" by (cases "shutdown c")
  with "2.prems" obtain err c2 where he: "handleError k errcb c1 = Some (err, c2)"
    by (auto simp: shutdownLoop_from.simps[of k tries c] split: option.splits)
  have hj: "handleError j errcb c1 = Some (err, c2)"
    using "2.IH"(1)[OF sd[symmetric] he "2.prems"(2)] .
  show ?case
  proof (cases "err = Some tryAgain \<and> \<not> 2 \<le> tries + 1")
    case True
    with "2.prems" sd he obtain k' where k: "k = Suc k'"
      and rec: "shutdownLoop_from k' (tries + 1) c2 = Some r"
      by (auto simp: shutdownLoop_from.simps[of k tries c] split: nat.splits)
    from k "2.prems"(2) obtain j' where j: "j = Suc j'" and kj: "k' \<le> j'"
      by (cases j) auto
    have "shutdownLoop_from j' (tries + 1) c2 = Some r"
      using "2.IH"(2)[OF sd[symmetric] he refl _ _ _ k rec kj] True by auto
    with True sd hj j show ?thesis
      unfolding shutdownLoop_from.simps[of j tries c] by simp
  next
    case False
    with "2.prems"(1) sd he hj show ?thesis
      unfolding shutdownLoop_from.simps[of j tries c] shutdownLoop_from.simps[of k tries c]
      by (auto split: if_splits)
  qed
next
  case (3 k errcb c)
  show ?case
  proof (cases errcb)
    case None
    with "3.prems" show ?thesis by simp
  next
    case (Some h)
    with "3.prems" have "run k h c = Some r" by simp
    from "3.IH"[OF Some this "3.prems"(2)] Some show ?thesis by simp
  qed
next
  case (4 k c)
  from "4.prems" obtain k' x c1 where k: "k = Suc k'" and cl: "Close k' c = Some (x, c1)"
    and r: "r = (Some ErrUnexpectedEOF, c1)"
    by (auto split: nat.splits option.splits)
  from k "4.prems"(2) obtain j' where j: "j = Suc j'" and kj: "k' \<le> j'"
    by (cases j) auto
  from "4.IH"[OF k cl kj] j r show ?case by simp
next
  case (5 k f c)
  then show ?case by simp
next
  case (6 k f c)
  from "6.prems" obtain k' x where k: "k = Suc k'" and fl: "fillInputBuffer k' c = Some x"
    by (auto split: nat.splits option.splits)
  from k "6.prems"(2) obtain j' where j: "j = Suc j'" and kj: "k' \<le> j'"
    by (cases j) auto
  from "6.IH"[OF k fl kj] "6.prems"(1) k j fl show ?case by simp
next
  case (7 k c)
  then show ?case by simp
next
  case (8 k err c)
  then show ?case by simp
next
  case (9 k c)
  obtain n err c1 where rf: "ReadFromOnce_call c = ((n, err), c1)"
    by (cases "ReadFromOnce_call c") auto
  show ?case
  proof (cases "n = 0 \<and> err = None")
    case True
    with "9.prems" rf obtain k' where k: "k = Suc k'" and rec: "fillInputBuffer k' c1 = Some r"
      by (auto simp: fillInputBuffer.simps[of k c] split: nat.splits)
    from k "9.prems"(2) obtain j' where j: "j = Suc j'" and kj: "k' \<le> j'"
      by (cases j) auto
    have "fillInputBuffer j' c1 = Some r" using "9.IH"(1)[OF rf[symmetric] refl True k rec kj] .
    with True rf j show ?thesis unfolding fillInputBuffer.simps[of j c] by simp
  next
    case nz: False
    show ?thesis
    proof (cases "err = Some EOF")
      case eof: True
      from "9.prems"(1) have cl: "Close k (MarkEOF_call c1) = Some r"
        by (simp add: fillInputBuffer.simps[of k c] rf nz eof)
      have "Close j (MarkEOF_call c1) = Some r"
        using "9.IH"(2)[OF rf[symmetric] refl nz eof cl "9.prems"(2)] .
      then show ?thesis by (simp add: fillInputBuffer.simps[of j c] rf nz eof)
    next
      case ne: False
      from "9.prems"(1) show ?thesis
        by (simp add: fillInputBuffer.simps[of k c] fillInputBuffer.simps[of j c] rf nz ne)
    qed
  qed
qed

subsection \<open>The shutdown loop runs on a connection whose flag is set\<close>

text \<open>
  \<^verbatim>\<open>shutdownLoop\<close> is called by \<^verbatim>\<open>Close\<close> only, after \<^verbatim>\<open>c.is_shutdown = true\<close>. With
  the flag set, a \<^verbatim>\<open>Close\<close> called from a handler or from \<^verbatim>\<open>fillInputBuffer\<close> returns
  nil at once, so handlers make no engine step and close nothing.
\<close>

lemma Close_shut: "is_shutdown c \<Longrightarrow> Close k c = Some (None, c\<lparr>trace := trace c @ [Lock, Unlock]\<rparr>)"
  by (simp add: Close.simps[of k c] log_def)

text \<open>\<^verbatim>\<open>fillInputBuffer\<close>, one round unfolded.\<close>

lemma fill_unfold:
  "fillInputBuffer k c =
     (if net_read c (reads c) = (0, None) then
        (case k of 0 \<Rightarrow> None
         | Suc k' \<Rightarrow> fillInputBuffer k' (c\<lparr>reads := Suc (reads c), trace := trace c @ [ReadFromOnce]\<rparr>))
      else if snd (net_read c (reads c)) = Some EOF then
        Close k (c\<lparr>reads := Suc (reads c), into_ssl_eof := True,
                   trace := trace c @ [ReadFromOnce, MarkEOF]\<rparr>)
      else Some (snd (net_read c (reads c)),
                 c\<lparr>reads := Suc (reads c), trace := trace c @ [ReadFromOnce]\<rparr>))"
  by (cases "net_read c (reads c)")
     (simp add: fillInputBuffer.simps[of k c] ReadFromOnce_call_def MarkEOF_call_def log_def)

text \<open>
  A fill on a connection that is shut down: what it leaves, that it returns once the
  transport answers something else than \<^verbatim>\<open>(0, nil)\<close>, and that it does not return when the
  transport never does.
\<close>

lemma fill_shut_quiet:
  "is_shutdown c \<Longrightarrow> fillInputBuffer k c = Some (e, c') \<Longrightarrow> quiet c c'"
proof (induction k arbitrary: c)
  case 0
  then show ?case
    by (subst (asm) fill_unfold) (auto simp: Close_shut quiet_def split: if_splits)
next
  case (Suc k)
  show ?case
  proof (cases "net_read c (reads c) = (0, None)")
    case True
    let ?c1 = "c\<lparr>reads := Suc (reads c), trace := trace c @ [ReadFromOnce]\<rparr>"
    from Suc.prems(2) True have "fillInputBuffer k ?c1 = Some (e, c')"
      by (subst (asm) fill_unfold) simp
    moreover have "is_shutdown ?c1" using Suc.prems(1) by simp
    ultimately have "quiet ?c1 c'" by (rule Suc.IH[rotated])
    then show ?thesis by (simp add: quiet_def)
  next
    case False
    with Suc.prems show ?thesis
      by (subst (asm) fill_unfold) (auto simp: Close_shut quiet_def split: if_splits)
  qed
qed


lemma fill_spin: "net_read c = (\<lambda>i. (0, None)) \<Longrightarrow> fillInputBuffer k c = None"
proof (induction k arbitrary: c)
  case 0
  then show ?case by (subst fill_unfold) simp
next
  case (Suc k)
  have "fillInputBuffer k (c\<lparr>reads := Suc (reads c), trace := trace c @ [ReadFromOnce]\<rparr>) = None"
    by (rule Suc.IH) (simp add: Suc.prems)
  with Suc.prems show ?case by (subst fill_unfold) simp
qed

lemma run_shut_quiet:
  assumes "is_shutdown c" and "run k h c = Some (e, c')"
  shows "is_shutdown c' \<and> ssl_steps c' = ssl_steps c \<and> closes c' = closes c \<and>
         net_read c' = net_read c"
proof (cases h)
  case on_ZERO_RETURN
  with assms show ?thesis
    by (auto simp: Close_shut split: nat.splits)
next
  case (on_WANT_READ_wait f)
  with assms show ?thesis by (auto split: option.splits)
next
  case (on_WANT_READ_fill f)
  with assms(2) obtain k' e1 c1 where fl: "fillInputBuffer k' c = Some (e1, c1)"
    and c': "c' = (log Unlock ((log Lock c1)\<lparr>want_read_future := None\<rparr>))
              \<lparr>futures := (futures (log Unlock ((log Lock c1)\<lparr>want_read_future := None\<rparr>)))
                 (f := Some (if e1 \<noteq> None then e1 else Some tryAgain))\<rparr>"
    by (auto simp: Let_def split: nat.splits option.splits)
  from fill_shut_quiet[OF assms(1) fl] c' show ?thesis
    by (simp add: quiet_def log_def)
next
  case on_WANT_WRITE
  with assms show ?thesis by (auto simp: flushOutputBuffer_def log_def)
next
  case (on_error x)
  with assms show ?thesis by auto
qed

lemma shutdown_step:
  assumes "shutdown c = (errcb, c1)"
  shows "ssl_steps c1 = Suc (ssl_steps c) \<and> is_shutdown c1 = is_shutdown c \<and>
         closes c1 = closes c \<and> net_read c1 = net_read c \<and> reads c1 = reads c"
  using assms
  by (auto simp: shutdown_def step_def getErrorHandler_def log_def Let_def
      split: if_splits ssl_error.splits option.splits)

lemma handleError_shut_quiet:
  assumes "is_shutdown c" and "handleError k errcb c = Some (e, c')"
  shows "is_shutdown c' \<and> ssl_steps c' = ssl_steps c \<and> closes c' = closes c \<and>
         net_read c' = net_read c"
proof (cases errcb)
  case None
  with assms show ?thesis by simp
next
  case (Some h)
  with assms have "run k h c = Some (e, c')" by simp
  from run_shut_quiet[OF assms(1) this] show ?thesis .
qed

lemma loop_bound_after_first:
  assumes "is_shutdown c" and "1 \<le> tries" and "shutdownLoop_from k tries c = Some (e, c')"
  shows "ssl_steps c' = Suc (ssl_steps c)"
proof -
  obtain errcb c1 where sd: "shutdown c = (errcb, c1)" by (cases "shutdown c")
  with assms(3) obtain err c2 where he: "handleError k errcb c1 = Some (err, c2)"
    by (auto simp: shutdownLoop_from.simps[of k tries c] split: option.splits)
  from shutdown_step[OF sd] assms(1) have s1: "ssl_steps c1 = Suc (ssl_steps c)" "is_shutdown c1"
    by simp_all
  from handleError_shut_quiet[OF s1(2) he] have s2: "ssl_steps c2 = ssl_steps c1" by simp
  from assms(2,3) sd he have "c' = c2 \<or> c' = snd (flushOutputBuffer c2)"
    unfolding shutdownLoop_from.simps[of k tries c] by (auto split: if_splits)
  with s1 s2 show ?thesis by (auto simp: flushOutputBuffer_def log_def)
qed

lemma loop_bound:
  assumes "is_shutdown c" and "shutdownLoop_from k 0 c = Some (e, c')"
  shows "Suc (ssl_steps c) \<le> ssl_steps c' \<and> ssl_steps c' \<le> ssl_steps c + 2"
proof -
  obtain errcb c1 where sd: "shutdown c = (errcb, c1)" by (cases "shutdown c")
  with assms(2) obtain err c2 where he: "handleError k errcb c1 = Some (err, c2)"
    by (auto simp: shutdownLoop_from.simps[of k 0 c] split: option.splits)
  from shutdown_step[OF sd] assms(1) have s1: "ssl_steps c1 = Suc (ssl_steps c)" "is_shutdown c1"
    by simp_all
  from handleError_shut_quiet[OF s1(2) he] have s2: "ssl_steps c2 = ssl_steps c1" "is_shutdown c2"
    by simp_all
  show ?thesis
  proof (cases "err = Some tryAgain")
    case True
    with assms(2) sd he obtain k' where "shutdownLoop_from k' 1 c2 = Some (e, c')"
      unfolding shutdownLoop_from.simps[of k 0 c] by (auto split: nat.splits)
    from loop_bound_after_first[OF s2(2) _ this] s1 s2 show ?thesis by simp
  next
    case False
    with assms(2) sd he have "c' = c2 \<or> c' = snd (flushOutputBuffer c2)"
      unfolding shutdownLoop_from.simps[of k 0 c] by (auto split: if_splits)
    with s1 s2 show ?thesis by (auto simp: flushOutputBuffer_def log_def)
  qed
qed





text \<open>
  A shutdown step that does not ask for input leaves a handler that neither fills nor
  waits. Such a handler returns, whatever the transport and the futures are; so a shutdown
  loop whose two steps do not ask for input returns, and so does the \<^verbatim>\<open>Close\<close> around it.
\<close>

lemma shutdown_no_input:
  assumes "\<not> asks_input (ssl c (ssl_steps c))" and "shutdown c = (errcb, c1)"
  shows "errcb = None \<or> errcb = Some on_ZERO_RETURN \<or> errcb = Some on_WANT_WRITE \<or>
         (\<exists>x. errcb = Some (on_error x))"
  using assms
  by (auto simp: asks_input_def shutdown_def step_def getErrorHandler_def log_def Let_def
      split: if_splits ssl_error.splits option.splits)

lemma attempt_no_input_total:
  assumes shut: "is_shutdown c" and na: "\<not> asks_input (ssl c (ssl_steps c))"
    and sd: "shutdown c = (errcb, c1)"
  shows "\<exists>e c2. handleError (Suc k) errcb c1 = Some (e, c2) \<and> is_shutdown c2 \<and>
           ssl c2 = ssl c \<and> ssl_steps c2 = Suc (ssl_steps c)"
proof -
  from shutdown_step[OF sd] shut have s1: "is_shutdown c1" "ssl_steps c1 = Suc (ssl_steps c)"
    by simp_all
  from frame_shutdown[OF sd] have s2: "ssl c1 = ssl c" by (simp add: frame_def)
  from shutdown_no_input[OF na sd] have "\<exists>e c2. handleError (Suc k) errcb c1 = Some (e, c2)"
    using s1 by (auto simp: Close_shut flushOutputBuffer_def log_def)
  then obtain e c2 where he: "handleError (Suc k) errcb c1 = Some (e, c2)" by blast
  from handleError_shut_quiet[OF s1(1) he] frame_all(3)[OF he] s1 s2 he show ?thesis
    by (auto simp: frame_def)
qed

lemma loop_no_input_after_first:
  assumes "is_shutdown c" and "\<not> asks_input (ssl c (ssl_steps c))" and "1 \<le> tries"
  shows "\<exists>r. shutdownLoop_from (Suc k) tries c = Some r"
proof -
  obtain errcb c1 where sd: "shutdown c = (errcb, c1)" by (cases "shutdown c")
  from attempt_no_input_total[OF assms(1,2) sd, of k] obtain e c2 where
    "handleError (Suc k) errcb c1 = Some (e, c2)" by blast
  with sd assms(3) show ?thesis
    unfolding shutdownLoop_from.simps[of "Suc k" tries c] by auto
qed

lemma loop_no_input_total:
  assumes shut: "is_shutdown c" and n0: "\<not> asks_input (ssl c (ssl_steps c))"
    and n1: "\<not> asks_input (ssl c (Suc (ssl_steps c)))"
  shows "\<exists>r. shutdownLoop_from (Suc (Suc k)) 0 c = Some r"
proof -
  obtain errcb c1 where sd: "shutdown c = (errcb, c1)" by (cases "shutdown c")
  from attempt_no_input_total[OF shut n0 sd, of "Suc k"] obtain err c2 where
    he: "handleError (Suc (Suc k)) errcb c1 = Some (err, c2)" and inv: "is_shutdown c2"
    "ssl c2 = ssl c" "ssl_steps c2 = Suc (ssl_steps c)" by blast
  show ?thesis
  proof (cases "err = Some tryAgain")
    case True
    from n1 inv have "\<not> asks_input (ssl c2 (ssl_steps c2))" by simp
    from loop_no_input_after_first[OF inv(1) this, of 1 k] obtain r where
      "shutdownLoop_from (Suc k) 1 c2 = Some r" by auto
    with sd he True show ?thesis
      unfolding shutdownLoop_from.simps[of "Suc (Suc k)" 0 c] by simp
  next
    case False
    with sd he show ?thesis
      unfolding shutdownLoop_from.simps[of "Suc (Suc k)" 0 c] by auto
  qed
qed

lemma Close_no_input_total:
  assumes n0: "\<not> asks_input (ssl c (ssl_steps c))"
    and n1: "\<not> asks_input (ssl c (Suc (ssl_steps c)))"
  shows "\<exists>r. Close (Suc (Suc k)) c = Some r"
proof (cases "is_shutdown c")
  case True
  then show ?thesis by (simp add: Close_shut)
next
  case False
  let ?c0 = "log Unlock ((log Lock c)\<lparr>is_shutdown := True\<rparr>)"
  have "is_shutdown ?c0" "\<not> asks_input (ssl ?c0 (ssl_steps ?c0))"
    "\<not> asks_input (ssl ?c0 (Suc (ssl_steps ?c0)))"
    using n0 n1 by (simp_all add: log_def)
  from loop_no_input_total[OF this, of k] obtain e1 c1 where
    "shutdownLoop_from (Suc (Suc k)) 0 ?c0 = Some (e1, c1)" by auto
  with False show ?thesis
    unfolding Close.simps[of "Suc (Suc k)" c] by (simp add: Let_def log_def split: prod.splits)
qed

text \<open>
  A fill returns once the transport answers something else than \<^verbatim>\<open>(0, nil)\<close>, when the
  \<^verbatim>\<open>Close\<close> it may call at EOF returns: no read reports EOF, or the flag is set, or the
  next two shutdown steps do not ask for input.
\<close>

lemma fill_first:
  assumes "net_read c (reads c) \<noteq> (0, None)"
    and "(\<forall>i. snd (net_read c i) \<noteq> Some EOF) \<or> is_shutdown c \<or>
         (\<not> asks_input (ssl c (ssl_steps c)) \<and> \<not> asks_input (ssl c (Suc (ssl_steps c))))"
  shows "\<exists>r. fillInputBuffer (Suc (Suc 0)) c = Some r"
proof (cases "snd (net_read c (reads c)) = Some EOF")
  case True
  let ?m = "c\<lparr>reads := Suc (reads c), into_ssl_eof := True,
                   trace := trace c @ [ReadFromOnce, MarkEOF]\<rparr>"
  from True assms(2) have "is_shutdown ?m \<or>
       (\<not> asks_input (ssl ?m (ssl_steps ?m)) \<and> \<not> asks_input (ssl ?m (Suc (ssl_steps ?m))))"
    by auto
  then have "\<exists>r. Close (Suc (Suc 0)) ?m = Some r"
    using Close_no_input_total[of ?m 0] by (auto simp: Close_shut)
  with True assms(1) show ?thesis
    by (subst fill_unfold) simp
next
  case False
  with assms(1) show ?thesis by (subst fill_unfold) simp
qed

lemma fill_total:
  assumes "net_read c (reads c + d) \<noteq> (0, None)"
    and "(\<forall>i. snd (net_read c i) \<noteq> Some EOF) \<or> is_shutdown c \<or>
         (\<not> asks_input (ssl c (ssl_steps c)) \<and> \<not> asks_input (ssl c (Suc (ssl_steps c))))"
  shows "\<exists>r. fillInputBuffer (d + 2) c = Some r"
  using assms
proof (induction d arbitrary: c)
  case 0
  then show ?case using fill_first[of c] by (simp add: numeral_2_eq_2)
next
  case (Suc d)
  show ?case
  proof (cases "net_read c (reads c) = (0, None)")
    case True
    let ?c1 = "c\<lparr>reads := Suc (reads c), trace := trace c @ [ReadFromOnce]\<rparr>"
    have "\<exists>r. fillInputBuffer (d + 2) ?c1 = Some r"
      using Suc.prems by (intro Suc.IH) simp_all
    with True show ?thesis by (subst fill_unfold) simp
  next
    case False
    from fill_first[OF False Suc.prems(2)] obtain r where
      "fillInputBuffer (Suc (Suc 0)) c = Some r" by auto
    from fuel_mono(5)[OF this, of "Suc d + 2"] show ?thesis by simp
  qed
qed

text \<open>
  A shutdown step that asks for input while a fill future is pending leaves the handler
  that waits on that future. While the future is unset the wait does not return, and
  neither do the shutdown loop and the \<^verbatim>\<open>Close\<close> around it.
\<close>

lemma loop_waits:
  assumes "want_read_future c = Some f" and "futures c f = None"
    and "asks_input (ssl c (ssl_steps c))"
  shows "shutdownLoop_from k tries c = None"
proof -
  from assms have "shutdown c =
      (Some (on_WANT_READ_wait f),
       c\<lparr>ssl_steps := Suc (ssl_steps c),
         trace := trace c @ [Lock, SSL_shutdown, go_flushOutputBuffer, Unlock]\<rparr>)"
    by (simp add: asks_input_def shutdown_def step_def getErrorHandler_def log_def Let_def)
  with assms(2) show ?thesis
    unfolding shutdownLoop_from.simps[of k tries c] by simp
qed

lemma Close_waits:
  assumes "\<not> is_shutdown c" and "want_read_future c = Some f" and "futures c f = None"
    and "asks_input (ssl c (ssl_steps c))"
  shows "Close k c = None"
proof -
  let ?c0 = "log Unlock ((log Lock c)\<lparr>is_shutdown := True\<rparr>)"
  have "shutdownLoop_from k 0 ?c0 = None"
    using assms by (intro loop_waits[of _ f]) (simp_all add: log_def)
  with assms(1) show ?thesis
    unfolding Close.simps[of k c] by (simp add: Let_def log_def)
qed

text \<open>A fill that returns has read the transport at least once.\<close>

lemma fill_reads:
  "fillInputBuffer k c = Some (e, c') \<Longrightarrow> reads c < reads c'"
proof (induction k arbitrary: c)
  case 0
  then show ?case
    by (subst (asm) fill_unfold) (auto simp: frame_def split: if_splits dest!: frame_all(1))
next
  case (Suc k)
  show ?case
  proof (cases "net_read c (reads c) = (0, None)")
    case True
    let ?c1 = "c\<lparr>reads := Suc (reads c), trace := trace c @ [ReadFromOnce]\<rparr>"
    from Suc.prems True have "fillInputBuffer k ?c1 = Some (e, c')"
      by (subst (asm) fill_unfold) simp
    from Suc.IH[OF this] show ?thesis by simp
  next
    case False
    with Suc.prems show ?thesis
      by (subst (asm) fill_unfold) (auto simp: frame_def split: if_splits dest!: frame_all(1))
  qed
qed

subsection \<open>Close closes the transport whatever the shutdown loop returns\<close>




subsection \<open>The shutdown loop makes at most two engine steps\<close>




subsection \<open>Clean close\<close>




subsection \<open>The syscall class of the classifier\<close>

text \<open>
  C4, as the code has it. For a step classified \<^verbatim>\<open>SSL_ERROR_SYSCALL\<close> the handler
  returns a fixed error: "protocol-violating EOF" when the error queue is empty
  (\<^verbatim>\<open>ERR_peek_error() == 0\<close>) and the return value is 0; the captured errno when the
  error queue is empty and the return value is exactly -1; and the head of the engine's
  error queue in every other case (another return value, or an error queue that is not
  empty). The connection is not touched.
\<close>

theorem getErrorHandler_SYSCALL:
  assumes "sr_errcode r = SSL_ERROR_SYSCALL"
  shows "getErrorHandler c r =
           (on_error
              (if sr_peek_error r = 0 \<and> sr_rv r = 0 then Some (errors_New ''protocol-violating EOF'')
               else if sr_peek_error r = 0 \<and> sr_rv r = - 1 then sr_errno r
               else Some (sr_queue_error r)),
            c)"
  using assms by (simp add: getErrorHandler_def)

theorem getErrorHandler_SYSCALL_witness:
  "sr_errcode (answer (- 1) SSL_ERROR_SYSCALL 0) = SSL_ERROR_SYSCALL \<and>
   getErrorHandler (sample (answer 1 SSL_ERROR_NONE 0) (0, None) None None) (answer 0 SSL_ERROR_SYSCALL 0) =
     (on_error (Some (errors_New ''protocol-violating EOF'')),
      sample (answer 1 SSL_ERROR_NONE 0) (0, None) None None) \<and>
   getErrorHandler (sample (answer 1 SSL_ERROR_NONE 0) (0, None) None None) (answer (- 1) SSL_ERROR_SYSCALL 0) =
     (on_error (Some (Foreign 1)), sample (answer 1 SSL_ERROR_NONE 0) (0, None) None None) \<and>
   getErrorHandler (sample (answer 1 SSL_ERROR_NONE 0) (0, None) None None) (answer (- 1) SSL_ERROR_SYSCALL 7) =
     (on_error (Some (Foreign 2)), sample (answer 1 SSL_ERROR_NONE 0) (0, None) None None) \<and>
   getErrorHandler (sample (answer 1 SSL_ERROR_NONE 0) (0, None) None None) (answer 0 SSL_ERROR_SYSCALL 7) =
     (on_error (Some (Foreign 2)), sample (answer 1 SSL_ERROR_NONE 0) (0, None) None None)"
  using getErrorHandler_SYSCALL
      [of "answer 0 SSL_ERROR_SYSCALL 0" "sample (answer 1 SSL_ERROR_NONE 0) (0, None) None None"]
    getErrorHandler_SYSCALL
      [of "answer (- 1) SSL_ERROR_SYSCALL 0" "sample (answer 1 SSL_ERROR_NONE 0) (0, None) None None"]
    getErrorHandler_SYSCALL
      [of "answer (- 1) SSL_ERROR_SYSCALL 7" "sample (answer 1 SSL_ERROR_NONE 0) (0, None) None None"]
    getErrorHandler_SYSCALL
      [of "answer 0 SSL_ERROR_SYSCALL 7" "sample (answer 1 SSL_ERROR_NONE 0) (0, None) None None"]
  by (simp add: answer_def)

text \<open>
  C4 as stated has every negative return value surface the captured platform error.
  The code tests \<^verbatim>\<open>case -1\<close>: at the return value -2, with an empty error queue, the
  handler returns the error-queue error \<open>Foreign 2\<close>, not the errno \<open>Foreign 1\<close>.
\<close>

theorem getErrorHandler_SYSCALL_counterexample:
  "sr_rv (answer (- 2) SSL_ERROR_SYSCALL 0) < 0 \<and>
   sr_peek_error (answer (- 2) SSL_ERROR_SYSCALL 0) = 0 \<and>
   sr_errno (answer (- 2) SSL_ERROR_SYSCALL 0) = Some (Foreign 1) \<and>
   fst (getErrorHandler (sample (answer (- 2) SSL_ERROR_SYSCALL 0) (0, None) None None)
          (answer (- 2) SSL_ERROR_SYSCALL 0)) = on_error (Some (Foreign 2)) \<and>
   handleError 0
     (Some (fst (getErrorHandler (sample (answer (- 2) SSL_ERROR_SYSCALL 0) (0, None) None None)
          (answer (- 2) SSL_ERROR_SYSCALL 0))))
     (sample (answer (- 2) SSL_ERROR_SYSCALL 0) (0, None) None None) =
     Some (Some (Foreign 2), sample (answer (- 2) SSL_ERROR_SYSCALL 0) (0, None) None None)"
  by (simp add: getErrorHandler_def answer_def)

subsection \<open>A connection that is already shut down\<close>

text \<open>
  C5, as the code has it. On a connection whose shutdown flag is set, \<^verbatim>\<open>Handshake\<close>
  returns \<^verbatim>\<open>io.ErrUnexpectedEOF\<close>, and with a buffer that is not empty \<^verbatim>\<open>Read\<close>
  returns \<^verbatim>\<open>(0, io.EOF)\<close> and \<^verbatim>\<open>Write\<close> returns \<^verbatim>\<open>(0, "connection closed")\<close>. None
  makes an engine step: the connection afterwards differs only by the trace of the
  mutex (and, for \<^verbatim>\<open>Handshake\<close>, of the flush goroutine it starts on its way out).
\<close>

theorem shut_down_fails_without_engine_step:
  assumes "is_shutdown c"
  shows "Handshake k c =
           Some (Some ErrUnexpectedEOF, c\<lparr>trace := trace c @ [Lock, Unlock, go_flushOutputBuffer]\<rparr>) \<and>
         (b \<noteq> [] \<longrightarrow>
            Read k c b = Some ((0, Some EOF), c\<lparr>trace := trace c @ [Lock, Unlock]\<rparr>) \<and>
            Write k c b =
              Some ((0, Some (errors_New ''connection closed'')), c\<lparr>trace := trace c @ [Lock, Unlock]\<rparr>))"
  using assms
  by (simp add: Handshake.simps handshake_def Read_def Read_loop.simps read_def
      Write_def Write_loop.simps Conn_write_def log_def)

theorem shut_down_fails_without_engine_step_witness:
  "is_shutdown ((sample (answer 1 SSL_ERROR_NONE 0) (0, None) None None)\<lparr>is_shutdown := True\<rparr>) \<and>
   Handshake 0 ((sample (answer 1 SSL_ERROR_NONE 0) (0, None) None None)\<lparr>is_shutdown := True\<rparr>) =
     Some (Some ErrUnexpectedEOF,
           (sample (answer 1 SSL_ERROR_NONE 0) (0, None) None None)
             \<lparr>is_shutdown := True, trace := [Lock, Unlock, go_flushOutputBuffer]\<rparr>) \<and>
   Read 0 ((sample (answer 1 SSL_ERROR_NONE 0) (0, None) None None)\<lparr>is_shutdown := True\<rparr>) [1, 2] =
     Some ((0, Some EOF),
           (sample (answer 1 SSL_ERROR_NONE 0) (0, None) None None)
             \<lparr>is_shutdown := True, trace := [Lock, Unlock]\<rparr>) \<and>
   Write 0 ((sample (answer 1 SSL_ERROR_NONE 0) (0, None) None None)\<lparr>is_shutdown := True\<rparr>) [1, 2] =
     Some ((0, Some (errors_New ''connection closed'')),
           (sample (answer 1 SSL_ERROR_NONE 0) (0, None) None None)
             \<lparr>is_shutdown := True, trace := [Lock, Unlock]\<rparr>)"
  using shut_down_fails_without_engine_step
    [of "(sample (answer 1 SSL_ERROR_NONE 0) (0, None) None None)\<lparr>is_shutdown := True\<rparr>" 0 "[1, 2]"]
  by (simp add: sample_def)

text \<open>
  C5 as stated fails for the zero-length buffer: on a connection that is shut down
  \<^verbatim>\<open>Read\<close> and \<^verbatim>\<open>Write\<close> still return \<^verbatim>\<open>(0, nil)\<close>, since \<^verbatim>\<open>len(b) == 0\<close> is tested
  before the flag is.
\<close>

theorem shut_down_zero_length_counterexample:
  "is_shutdown ((sample (answer 1 SSL_ERROR_NONE 0) (0, None) None None)\<lparr>is_shutdown := True\<rparr>) \<and>
   fst (the (Read 0 ((sample (answer 1 SSL_ERROR_NONE 0) (0, None) None None)\<lparr>is_shutdown := True\<rparr>) [])) =
     (0, None) \<and>
   fst (the (Read 0 ((sample (answer 1 SSL_ERROR_NONE 0) (0, None) None None)\<lparr>is_shutdown := True\<rparr>) [])) \<noteq>
     (0, Some EOF) \<and>
   fst (the (Write 0 ((sample (answer 1 SSL_ERROR_NONE 0) (0, None) None None)\<lparr>is_shutdown := True\<rparr>) [])) =
     (0, None) \<and>
   fst (the (Write 0 ((sample (answer 1 SSL_ERROR_NONE 0) (0, None) None None)\<lparr>is_shutdown := True\<rparr>) [])) \<noteq>
     (0, Some (errors_New ''connection closed''))"
  by (simp add: Read_def Write_def sample_def)

subsection \<open>Write drains before it returns\<close>

text \<open>
  C6. When the encrypt step of \<^verbatim>\<open>Write\<close> succeeds (\<^verbatim>\<open>rv > 0\<close>) on a buffer that is not
  empty, \<^verbatim>\<open>Write\<close> calls \<^verbatim>\<open>flushOutputBuffer\<close> itself, not in a goroutine (the trace
  ends with \<open>WriteTo\<close> and the transport's write counter has moved), and returns the
  byte count \<^verbatim>\<open>rv\<close> with the error of that write. \<open>Write_loop\<close> is the loop at its
  head, so this holds for the round in which the step succeeds, whichever it is.
\<close>

theorem Write_drains_before_return:
  assumes "\<not> is_shutdown c" and "b \<noteq> []" and "sr_rv (ssl c (ssl_steps c)) > 0"
  shows "Write_loop k c b =
           Some ((sr_rv (ssl c (ssl_steps c)), net_write c (writes c)),
                 c\<lparr>ssl_steps := Suc (ssl_steps c), writes := Suc (writes c),
                   trace := trace c @ [Lock, SSL_write b, Unlock, WriteTo]\<rparr>) \<and>
         Write k c b = Write_loop k c b"
  using assms
  by (simp add: Write_def Write_loop.simps Conn_write_def log_def step_def flushOutputBuffer_def)

theorem Write_drains_before_return_witness:
  "\<not> is_shutdown (sample (answer 2 SSL_ERROR_NONE 0) (0, None) (Some (Foreign 9)) None) \<and>
   [5, 6] \<noteq> ([] :: byte list) \<and>
   sr_rv (ssl (sample (answer 2 SSL_ERROR_NONE 0) (0, None) (Some (Foreign 9)) None)
            (ssl_steps (sample (answer 2 SSL_ERROR_NONE 0) (0, None) (Some (Foreign 9)) None))) > 0 \<and>
   Write 0 (sample (answer 2 SSL_ERROR_NONE 0) (0, None) (Some (Foreign 9)) None) [5, 6] =
     Some ((2, Some (Foreign 9)),
           (sample (answer 2 SSL_ERROR_NONE 0) (0, None) (Some (Foreign 9)) None)
             \<lparr>ssl_steps := 1, writes := 1, trace := [Lock, SSL_write [5, 6], Unlock, WriteTo]\<rparr>)"
  using Write_drains_before_return
    [of "sample (answer 2 SSL_ERROR_NONE 0) (0, None) (Some (Foreign 9)) None" "[5, 6]" 0]
  by (simp add: sample_def answer_def)

subsection \<open>Close is idempotent\<close>

text \<open>
  C7. Once the shutdown flag is set, \<^verbatim>\<open>Close\<close> returns nil and changes nothing but the
  trace of the mutex: no engine step (\<open>ssl_steps\<close>), no close of the transport
  (\<open>closes\<close>). And a \<^verbatim>\<open>Close\<close> that returned has set the flag, so every \<^verbatim>\<open>Close\<close>
  after it is such a no-op, with any fuel \<open>j\<close>.
\<close>

theorem Close_idempotent:
  "(is_shutdown c \<longrightarrow> Close k c = Some (None, c\<lparr>trace := trace c @ [Lock, Unlock]\<rparr>)) \<and>
   (Close k c = Some (e, c') \<longrightarrow>
      is_shutdown c' \<and> Close j c' = Some (None, c'\<lparr>trace := trace c' @ [Lock, Unlock]\<rparr>))"
proof -
  have a: "Close k c = Some (None, c\<lparr>trace := trace c @ [Lock, Unlock]\<rparr>)" if "is_shutdown c" for k c
    using that by (simp add: Close.simps[of k c] log_def)
  show ?thesis using a frame_all(1)[of k c e c'] by blast
qed

theorem Close_idempotent_witness:
  "Close 0 (sample (answer 1 SSL_ERROR_NONE 0) (0, None) None None) =
     Some (None,
           (sample (answer 1 SSL_ERROR_NONE 0) (0, None) None None)
             \<lparr>is_shutdown := True, ssl_steps := 1, writes := 1, closes := 1,
              trace := [Lock, Unlock, Lock, SSL_shutdown, Unlock, WriteTo, conn_Close]\<rparr>) \<and>
   is_shutdown
     ((sample (answer 1 SSL_ERROR_NONE 0) (0, None) None None)
        \<lparr>is_shutdown := True, ssl_steps := 1, writes := 1, closes := 1,
         trace := [Lock, Unlock, Lock, SSL_shutdown, Unlock, WriteTo, conn_Close]\<rparr>) \<and>
   Close 3 ((sample (answer 1 SSL_ERROR_NONE 0) (0, None) None None)
             \<lparr>is_shutdown := True, ssl_steps := 1, writes := 1, closes := 1,
              trace := [Lock, Unlock, Lock, SSL_shutdown, Unlock, WriteTo, conn_Close]\<rparr>) =
     Some (None,
           (sample (answer 1 SSL_ERROR_NONE 0) (0, None) None None)
             \<lparr>is_shutdown := True, ssl_steps := 1, writes := 1, closes := 1,
              trace := [Lock, Unlock, Lock, SSL_shutdown, Unlock, WriteTo, conn_Close, Lock, Unlock]\<rparr>)"
proof -
  let ?A = "sample (answer 1 SSL_ERROR_NONE 0) (0, None) None None"
  let ?B = "?A\<lparr>is_shutdown := True, ssl_steps := 1, writes := 1, closes := 1,
              trace := [Lock, Unlock, Lock, SSL_shutdown, Unlock, WriteTo, conn_Close]\<rparr>"
  have first: "Close 0 ?A = Some (None, ?B)"
    by (simp add: Close.simps shutdownLoop_from.simps shutdown_def step_def log_def
        flushOutputBuffer_def conn_Close_call_def Finalize_def Add_def sample_def answer_def)
  from Close_idempotent [where c = ?A and k = 0 and j = 3 and e = None and c' = ?B] first
  have after: "is_shutdown ?B"
    and again: "Close 3 ?B = Some (None, ?B\<lparr>trace := trace ?B @ [Lock, Unlock]\<rparr>)"
    by blast+
  from Close_idempotent [where c = ?B and k = 3] after
  have "Close 3 ?B = Some (None, ?B\<lparr>trace := trace ?B @ [Lock, Unlock]\<rparr>)"
    by blast
  with first after show ?thesis by simp
qed

subsection \<open>One fill at a time\<close>

text \<open>
  C8, as the code has it. \<^verbatim>\<open>getErrorHandler\<close> runs under \<^verbatim>\<open>c.mtx\<close>, so callers that
  stall at the same time pass through it one after the other: the second caller's step is
  the step on the connection as the first left it. \<^verbatim>\<open>c.want_read_future\<close> is the one
  pending fill future of the connection.
  \<^item> A step classified \<^verbatim>\<open>SSL_ERROR_WANT_READ\<close> creates a future, and returns the
    handler that fills, only when none is pending (first conjunct); when one is pending
    it returns the handler that waits on that same future and creates none (second
    conjunct).
  \<^item> So of two \<^verbatim>\<open>Read\<close> callers that stall one after the other on a connection with
    no fill pending, the first gets the handler that fills and the second the handler
    that waits on the first's future; no second future is made, the transport is not
    read by the steps, and the second caller's wait does not return while the future is
    unset (third conjunct).
  \<^item> The handler that waits reads nothing and changes nothing: it returns what the
    future was set with, once it is set (fourth conjunct).
  \<^item> When the handler that fills has returned \<open>res\<close>, it has read the transport,
    cleared \<^verbatim>\<open>c.want_read_future\<close> and set the future with \<open>res\<close>, so that a waiter
    on that future returns \<open>res\<close> too (fifth conjunct).
  \<^item> The handler that fills does return when the transport answers something else than
    \<^verbatim>\<open>(0, nil)\<close> and the \<^verbatim>\<open>Close\<close> it may call at EOF returns: no read reports EOF,
    or the flag is set, or the next two shutdown steps do not ask for input (last
    conjunct).

  The futures are those of the store \<open>futures\<close>: \<open>futures c f\<close> is \<open>None\<close> while
  future \<open>f\<close> is unset. The deferred function of the handler that fills clears the
  field under the mutex and then sets the future; here the two are one step.
\<close>

theorem single_flight:
  "(sr_errcode r = SSL_ERROR_WANT_READ \<and> want_read_future c = None
    \<longrightarrow> getErrorHandler c r =
          (on_WANT_READ_fill (next_future c),
           c\<lparr>want_read_future := Some (next_future c), next_future := Suc (next_future c),
             trace := trace c @ [go_flushOutputBuffer]\<rparr>)) \<and>
   (sr_errcode r = SSL_ERROR_WANT_READ \<and> want_read_future c = Some f
    \<longrightarrow> getErrorHandler c r =
          (on_WANT_READ_wait f, c\<lparr>trace := trace c @ [go_flushOutputBuffer]\<rparr>)) \<and>
   (\<not> is_shutdown c \<and> want_read_future c = None \<and> futures c (next_future c) = None \<and>
    b1 \<noteq> [] \<and> b2 \<noteq> [] \<and>
    sr_rv (ssl c (ssl_steps c)) \<le> 0 \<and>
    sr_errcode (ssl c (ssl_steps c)) = SSL_ERROR_WANT_READ \<and>
    sr_rv (ssl c (Suc (ssl_steps c))) \<le> 0 \<and>
    sr_errcode (ssl c (Suc (ssl_steps c))) = SSL_ERROR_WANT_READ
    \<longrightarrow> read c b1 =
          ((0, Some (on_WANT_READ_fill (next_future c))),
           c\<lparr>want_read_future := Some (next_future c), next_future := Suc (next_future c),
             ssl_steps := Suc (ssl_steps c),
             trace := trace c @ [Lock, SSL_read (length b1), go_flushOutputBuffer, Unlock]\<rparr>) \<and>
        read (c\<lparr>want_read_future := Some (next_future c), next_future := Suc (next_future c),
                ssl_steps := Suc (ssl_steps c),
                trace := trace c @ [Lock, SSL_read (length b1), go_flushOutputBuffer, Unlock]\<rparr>) b2 =
          ((0, Some (on_WANT_READ_wait (next_future c))),
           c\<lparr>want_read_future := Some (next_future c), next_future := Suc (next_future c),
             ssl_steps := Suc (Suc (ssl_steps c)),
             trace := trace c @ [Lock, SSL_read (length b1), go_flushOutputBuffer, Unlock,
                                 Lock, SSL_read (length b2), go_flushOutputBuffer, Unlock]\<rparr>) \<and>
        run k (on_WANT_READ_wait (next_future c))
          (c\<lparr>want_read_future := Some (next_future c), next_future := Suc (next_future c),
             ssl_steps := Suc (Suc (ssl_steps c)),
             trace := trace c @ [Lock, SSL_read (length b1), go_flushOutputBuffer, Unlock,
                                 Lock, SSL_read (length b2), go_flushOutputBuffer, Unlock]\<rparr>) =
          None) \<and>
   run k (on_WANT_READ_wait f) c =
     (case futures c f of None \<Rightarrow> None | Some res \<Rightarrow> Some (res, c)) \<and>
   (run k (on_WANT_READ_fill f) c = Some (res, c')
    \<longrightarrow> reads c < reads c' \<and> want_read_future c' = None \<and> futures c' f = Some res \<and>
        run j (on_WANT_READ_wait f) c' = Some (res, c')) \<and>
   (net_read c (reads c + d) \<noteq> (0, None) \<and>
    ((\<forall>i. snd (net_read c i) \<noteq> Some EOF) \<or> is_shutdown c \<or>
     \<not> asks_input (ssl c (ssl_steps c)) \<and> \<not> asks_input (ssl c (Suc (ssl_steps c))))
    \<longrightarrow> (\<exists>i res c'. run i (on_WANT_READ_fill f) c = Some (res, c')))"
proof -
  have first: "getErrorHandler c r =
          (on_WANT_READ_fill (next_future c),
           c\<lparr>want_read_future := Some (next_future c), next_future := Suc (next_future c),
             trace := trace c @ [go_flushOutputBuffer]\<rparr>)"
    if "sr_errcode r = SSL_ERROR_WANT_READ \<and> want_read_future c = None"
    using that by (simp add: getErrorHandler_def log_def Let_def)
  have later: "getErrorHandler c r =
          (on_WANT_READ_wait f, c\<lparr>trace := trace c @ [go_flushOutputBuffer]\<rparr>)"
    if "sr_errcode r = SSL_ERROR_WANT_READ \<and> want_read_future c = Some f"
    using that by (simp add: getErrorHandler_def log_def Let_def)
  let ?c1 = "c\<lparr>want_read_future := Some (next_future c), next_future := Suc (next_future c),
             ssl_steps := Suc (ssl_steps c),
             trace := trace c @ [Lock, SSL_read (length b1), go_flushOutputBuffer, Unlock]\<rparr>"
  let ?c2 = "c\<lparr>want_read_future := Some (next_future c), next_future := Suc (next_future c),
             ssl_steps := Suc (Suc (ssl_steps c)),
             trace := trace c @ [Lock, SSL_read (length b1), go_flushOutputBuffer, Unlock,
                                 Lock, SSL_read (length b2), go_flushOutputBuffer, Unlock]\<rparr>"
  have callers: "read c b1 = ((0, Some (on_WANT_READ_fill (next_future c))), ?c1) \<and>
        read ?c1 b2 = ((0, Some (on_WANT_READ_wait (next_future c))), ?c2) \<and>
        run k (on_WANT_READ_wait (next_future c)) ?c2 = None"
    if a: "\<not> is_shutdown c \<and> want_read_future c = None \<and> futures c (next_future c) = None \<and>
      b1 \<noteq> [] \<and> b2 \<noteq> [] \<and>
      sr_rv (ssl c (ssl_steps c)) \<le> 0 \<and>
      sr_errcode (ssl c (ssl_steps c)) = SSL_ERROR_WANT_READ \<and>
      sr_rv (ssl c (Suc (ssl_steps c))) \<le> 0 \<and>
      sr_errcode (ssl c (Suc (ssl_steps c))) = SSL_ERROR_WANT_READ"
  proof -
    from a have r1: "read c b1 = ((0, Some (on_WANT_READ_fill (next_future c))), ?c1)"
      by (simp add: read_def step_def getErrorHandler_def log_def Let_def)
    from a have r2: "read ?c1 b2 = ((0, Some (on_WANT_READ_wait (next_future c))), ?c2)"
      by (simp add: read_def step_def getErrorHandler_def log_def Let_def)
    from a have w: "run k (on_WANT_READ_wait (next_future c)) ?c2 = None" by simp
    from r1 r2 w show ?thesis by simp
  qed
  have waiter: "run k (on_WANT_READ_wait f) c =
     (case futures c f of None \<Rightarrow> None | Some res \<Rightarrow> Some (res, c))"
    by simp
  have filler: "reads c < reads c' \<and> want_read_future c' = None \<and> futures c' f = Some res \<and>
        run j (on_WANT_READ_wait f) c' = Some (res, c')"
    if a: "run k (on_WANT_READ_fill f) c = Some (res, c')"
  proof -
    from a obtain k' e1 c1 where fl: "fillInputBuffer k' c = Some (e1, c1)"
      and res: "res = (if e1 \<noteq> None then e1 else Some tryAgain)"
      and c': "c' = (log Unlock ((log Lock c1)\<lparr>want_read_future := None\<rparr>))
                \<lparr>futures := (futures (log Unlock ((log Lock c1)\<lparr>want_read_future := None\<rparr>)))
                   (f := Some res)\<rparr>"
      by (auto simp: Let_def split: nat.splits option.splits)
    from fill_reads[OF fl] c' show ?thesis by (simp add: log_def)
  qed
  have returns: "\<exists>i res c'. run i (on_WANT_READ_fill f) c = Some (res, c')"
    if a: "net_read c (reads c + d) \<noteq> (0, None) \<and>
      ((\<forall>i. snd (net_read c i) \<noteq> Some EOF) \<or> is_shutdown c \<or>
       \<not> asks_input (ssl c (ssl_steps c)) \<and> \<not> asks_input (ssl c (Suc (ssl_steps c))))"
  proof -
    from a have "net_read c (reads c + d) \<noteq> (0, None)"
      "(\<forall>i. snd (net_read c i) \<noteq> Some EOF) \<or> is_shutdown c \<or>
       \<not> asks_input (ssl c (ssl_steps c)) \<and> \<not> asks_input (ssl c (Suc (ssl_steps c)))"
      by simp_all
    from fill_total[OF this] obtain e1 c1 where "fillInputBuffer (d + 2) c = Some (e1, c1)"
      by auto
    then have "\<exists>res c'. run (Suc (d + 2)) (on_WANT_READ_fill f) c = Some (res, c')"
      by (simp add: Let_def)
    then show ?thesis by blast
  qed
  show ?thesis using first later callers waiter filler returns by blast
qed

theorem single_flight_witness:
  "getErrorHandler (sample (answer (- 1) SSL_ERROR_WANT_READ 0) (3, None) None None)
     (answer (- 1) SSL_ERROR_WANT_READ 0) =
     (on_WANT_READ_fill 0,
      (sample (answer (- 1) SSL_ERROR_WANT_READ 0) (3, None) None None)
        \<lparr>want_read_future := Some 0, next_future := 1, trace := [go_flushOutputBuffer]\<rparr>) \<and>
   getErrorHandler
     ((sample (answer (- 1) SSL_ERROR_WANT_READ 0) (3, None) None None)
        \<lparr>want_read_future := Some 0, next_future := 1, trace := [go_flushOutputBuffer]\<rparr>)
     (answer (- 1) SSL_ERROR_WANT_READ 0) =
     (on_WANT_READ_wait 0,
      (sample (answer (- 1) SSL_ERROR_WANT_READ 0) (3, None) None None)
        \<lparr>want_read_future := Some 0, next_future := 1,
         trace := [go_flushOutputBuffer, go_flushOutputBuffer]\<rparr>) \<and>
   read (sample (answer (- 1) SSL_ERROR_WANT_READ 0) (3, None) None None) [1] =
     ((0, Some (on_WANT_READ_fill 0)),
      (sample (answer (- 1) SSL_ERROR_WANT_READ 0) (3, None) None None)
        \<lparr>want_read_future := Some 0, next_future := 1, ssl_steps := 1,
         trace := [Lock, SSL_read 1, go_flushOutputBuffer, Unlock]\<rparr>) \<and>
   read ((sample (answer (- 1) SSL_ERROR_WANT_READ 0) (3, None) None None)
           \<lparr>want_read_future := Some 0, next_future := 1, ssl_steps := 1,
            trace := [Lock, SSL_read 1, go_flushOutputBuffer, Unlock]\<rparr>) [2, 3] =
     ((0, Some (on_WANT_READ_wait 0)),
      (sample (answer (- 1) SSL_ERROR_WANT_READ 0) (3, None) None None)
        \<lparr>want_read_future := Some 0, next_future := 1, ssl_steps := 2,
         trace := [Lock, SSL_read 1, go_flushOutputBuffer, Unlock,
                   Lock, SSL_read 2, go_flushOutputBuffer, Unlock]\<rparr>) \<and>
   run 0 (on_WANT_READ_wait 0)
     ((sample (answer (- 1) SSL_ERROR_WANT_READ 0) (3, None) None None)
        \<lparr>want_read_future := Some 0, next_future := 1, ssl_steps := 2,
         trace := [Lock, SSL_read 1, go_flushOutputBuffer, Unlock,
                   Lock, SSL_read 2, go_flushOutputBuffer, Unlock]\<rparr>) = None \<and>
   run 1 (on_WANT_READ_fill 0)
     ((sample (answer (- 1) SSL_ERROR_WANT_READ 0) (3, None) None None)
        \<lparr>want_read_future := Some 0, next_future := 1, ssl_steps := 2,
         trace := [Lock, SSL_read 1, go_flushOutputBuffer, Unlock,
                   Lock, SSL_read 2, go_flushOutputBuffer, Unlock]\<rparr>) =
     Some (Some tryAgain,
       (sample (answer (- 1) SSL_ERROR_WANT_READ 0) (3, None) None None)
        \<lparr>want_read_future := None, futures := (\<lambda>f. None)(0 := Some (Some tryAgain)),
         next_future := 1, ssl_steps := 2, reads := 1,
         trace := [Lock, SSL_read 1, go_flushOutputBuffer, Unlock,
                   Lock, SSL_read 2, go_flushOutputBuffer, Unlock,
                   ReadFromOnce, Lock, Unlock]\<rparr>) \<and>
   run 0 (on_WANT_READ_wait 0)
     ((sample (answer (- 1) SSL_ERROR_WANT_READ 0) (3, None) None None)
        \<lparr>want_read_future := None, futures := (\<lambda>f. None)(0 := Some (Some tryAgain)),
         next_future := 1, ssl_steps := 2, reads := 1,
         trace := [Lock, SSL_read 1, go_flushOutputBuffer, Unlock,
                   Lock, SSL_read 2, go_flushOutputBuffer, Unlock,
                   ReadFromOnce, Lock, Unlock]\<rparr>) =
     Some (Some tryAgain,
       (sample (answer (- 1) SSL_ERROR_WANT_READ 0) (3, None) None None)
        \<lparr>want_read_future := None, futures := (\<lambda>f. None)(0 := Some (Some tryAgain)),
         next_future := 1, ssl_steps := 2, reads := 1,
         trace := [Lock, SSL_read 1, go_flushOutputBuffer, Unlock,
                   Lock, SSL_read 2, go_flushOutputBuffer, Unlock,
                   ReadFromOnce, Lock, Unlock]\<rparr>) \<and>
   (\<exists>i res c'. run i (on_WANT_READ_fill 0)
      ((sample (answer (- 1) SSL_ERROR_WANT_READ 0) (3, None) None None)
        \<lparr>want_read_future := Some 0, next_future := 1, ssl_steps := 2,
         trace := [Lock, SSL_read 1, go_flushOutputBuffer, Unlock,
                   Lock, SSL_read 2, go_flushOutputBuffer, Unlock]\<rparr>) = Some (res, c'))"
proof -
  let ?V = "sample (answer (- 1) SSL_ERROR_WANT_READ 0) (3, None) None None"
  let ?V1 = "?V\<lparr>want_read_future := Some 0, next_future := 1, ssl_steps := 1,
         trace := [Lock, SSL_read 1, go_flushOutputBuffer, Unlock]\<rparr>"
  let ?V2 = "?V\<lparr>want_read_future := Some 0, next_future := 1, ssl_steps := 2,
         trace := [Lock, SSL_read 1, go_flushOutputBuffer, Unlock,
                   Lock, SSL_read 2, go_flushOutputBuffer, Unlock]\<rparr>"
  let ?V3 = "?V\<lparr>want_read_future := None, futures := (\<lambda>f. None)(0 := Some (Some tryAgain)),
         next_future := 1, ssl_steps := 2, reads := 1,
         trace := [Lock, SSL_read 1, go_flushOutputBuffer, Unlock,
                   Lock, SSL_read 2, go_flushOutputBuffer, Unlock,
                   ReadFromOnce, Lock, Unlock]\<rparr>"
  have pre: "\<not> is_shutdown ?V \<and> want_read_future ?V = None \<and> futures ?V (next_future ?V) = None \<and>
    [1 :: byte] \<noteq> [] \<and> [2, 3 :: byte] \<noteq> [] \<and>
    sr_rv (ssl ?V (ssl_steps ?V)) \<le> 0 \<and>
    sr_errcode (ssl ?V (ssl_steps ?V)) = SSL_ERROR_WANT_READ \<and>
    sr_rv (ssl ?V (Suc (ssl_steps ?V))) \<le> 0 \<and>
    sr_errcode (ssl ?V (Suc (ssl_steps ?V))) = SSL_ERROR_WANT_READ"
    by (simp add: sample_def answer_def)
  have v1: "?V\<lparr>want_read_future := Some (next_future ?V), next_future := Suc (next_future ?V),
             ssl_steps := Suc (ssl_steps ?V),
             trace := trace ?V @ [Lock, SSL_read (length [1 :: byte]), go_flushOutputBuffer, Unlock]\<rparr>
            = ?V1"
    by (simp add: sample_def)
  have v2: "?V\<lparr>want_read_future := Some (next_future ?V), next_future := Suc (next_future ?V),
             ssl_steps := Suc (Suc (ssl_steps ?V)),
             trace := trace ?V @ [Lock, SSL_read (length [1 :: byte]), go_flushOutputBuffer, Unlock,
                                 Lock, SSL_read (length [2, 3 :: byte]), go_flushOutputBuffer,
                                 Unlock]\<rparr>
            = ?V2"
    by (simp add: sample_def numeral_2_eq_2)
  note t = single_flight [where c = ?V and ?b1.0 = "[1]" and ?b2.0 = "[2, 3]" and k = 0]
  from t pre have callers: "read ?V [1] = ((0, Some (on_WANT_READ_fill 0)), ?V1) \<and>
      read ?V1 [2, 3] = ((0, Some (on_WANT_READ_wait 0)), ?V2) \<and>
      run 0 (on_WANT_READ_wait 0) ?V2 = None"
    unfolding v1 v2 by (simp add: sample_def)
  have fill: "run 1 (on_WANT_READ_fill 0) ?V2 = Some (Some tryAgain, ?V3)"
    by (simp add: fillInputBuffer.simps ReadFromOnce_call_def log_def sample_def Let_def)
  from single_flight [where c = ?V2 and k = 1 and f = 0 and res = "Some tryAgain" and c' = ?V3
      and j = 0] fill
  have woken: "run 0 (on_WANT_READ_wait 0) ?V3 = Some (Some tryAgain, ?V3)"
    by blast
  have "net_read ?V2 (reads ?V2 + 0) \<noteq> (0, None) \<and>
    ((\<forall>i. snd (net_read ?V2 i) \<noteq> Some EOF) \<or> is_shutdown ?V2 \<or>
     \<not> asks_input (ssl ?V2 (ssl_steps ?V2)) \<and> \<not> asks_input (ssl ?V2 (Suc (ssl_steps ?V2))))"
    by (simp add: sample_def)
  with single_flight [where c = ?V2 and d = 0 and f = 0]
  have ret: "\<exists>i res c'. run i (on_WANT_READ_fill 0) ?V2 = Some (res, c')"
    by blast
  let ?G = "?V\<lparr>want_read_future := Some 0, next_future := 1, trace := [go_flushOutputBuffer]\<rparr>"
  have "sr_errcode (answer (- 1) SSL_ERROR_WANT_READ 0) = SSL_ERROR_WANT_READ \<and>
      want_read_future ?V = None"
    by (simp add: sample_def answer_def)
  with single_flight [where c = ?V and r = "answer (- 1) SSL_ERROR_WANT_READ 0"]
  have "getErrorHandler ?V (answer (- 1) SSL_ERROR_WANT_READ 0) =
      (on_WANT_READ_fill (next_future ?V),
       ?V\<lparr>want_read_future := Some (next_future ?V), next_future := Suc (next_future ?V),
          trace := trace ?V @ [go_flushOutputBuffer]\<rparr>)"
    by blast
  then have g1: "getErrorHandler ?V (answer (- 1) SSL_ERROR_WANT_READ 0) =
      (on_WANT_READ_fill 0, ?G)"
    by (simp add: sample_def)
  have "sr_errcode (answer (- 1) SSL_ERROR_WANT_READ 0) = SSL_ERROR_WANT_READ \<and>
      want_read_future ?G = Some 0"
    by (simp add: sample_def answer_def)
  with single_flight [where c = ?G and r = "answer (- 1) SSL_ERROR_WANT_READ 0" and f = 0]
  have "getErrorHandler ?G (answer (- 1) SSL_ERROR_WANT_READ 0) =
      (on_WANT_READ_wait 0, ?G\<lparr>trace := trace ?G @ [go_flushOutputBuffer]\<rparr>)"
    by blast
  then have g2: "getErrorHandler ?G (answer (- 1) SSL_ERROR_WANT_READ 0) =
      (on_WANT_READ_wait 0,
       ?V\<lparr>want_read_future := Some 0, next_future := 1,
          trace := [go_flushOutputBuffer, go_flushOutputBuffer]\<rparr>)"
    by (simp add: sample_def)
  from g1 g2 callers fill woken ret show ?thesis by blast
qed

text \<open>
  C8 as stated has the waiters woken with the result of the fill. They are woken only by
  the filler's \<^verbatim>\<open>Set\<close>, which runs when \<^verbatim>\<open>fillInputBuffer\<close> has returned. Take two
  \<^verbatim>\<open>Read\<close> callers that stall one after the other on a fresh connection whose transport
  answers \<^verbatim>\<open>(0, nil)\<close> to every read: the first gets the handler that fills, the second
  the handler that waits on the same future (first two conjuncts); the fill goes round
  for ever, so the filler's handler does not return and the waiter is never woken, with
  any amount of fuel (last two conjuncts).
\<close>

theorem single_flight_not_woken_counterexample:
  "\<forall>k. read (sample (answer (- 1) SSL_ERROR_WANT_READ 0) (0, None) None None) [1] =
          ((0, Some (on_WANT_READ_fill 0)),
           (sample (answer (- 1) SSL_ERROR_WANT_READ 0) (0, None) None None)
             \<lparr>want_read_future := Some 0, next_future := 1, ssl_steps := 1,
              trace := [Lock, SSL_read 1, go_flushOutputBuffer, Unlock]\<rparr>) \<and>
        read ((sample (answer (- 1) SSL_ERROR_WANT_READ 0) (0, None) None None)
                \<lparr>want_read_future := Some 0, next_future := 1, ssl_steps := 1,
                 trace := [Lock, SSL_read 1, go_flushOutputBuffer, Unlock]\<rparr>) [2, 3] =
          ((0, Some (on_WANT_READ_wait 0)),
           (sample (answer (- 1) SSL_ERROR_WANT_READ 0) (0, None) None None)
             \<lparr>want_read_future := Some 0, next_future := 1, ssl_steps := 2,
              trace := [Lock, SSL_read 1, go_flushOutputBuffer, Unlock,
                        Lock, SSL_read 2, go_flushOutputBuffer, Unlock]\<rparr>) \<and>
        run k (on_WANT_READ_fill 0)
          ((sample (answer (- 1) SSL_ERROR_WANT_READ 0) (0, None) None None)
             \<lparr>want_read_future := Some 0, next_future := 1, ssl_steps := 2,
              trace := [Lock, SSL_read 1, go_flushOutputBuffer, Unlock,
                        Lock, SSL_read 2, go_flushOutputBuffer, Unlock]\<rparr>) = None \<and>
        run k (on_WANT_READ_wait 0)
          ((sample (answer (- 1) SSL_ERROR_WANT_READ 0) (0, None) None None)
             \<lparr>want_read_future := Some 0, next_future := 1, ssl_steps := 2,
              trace := [Lock, SSL_read 1, go_flushOutputBuffer, Unlock,
                        Lock, SSL_read 2, go_flushOutputBuffer, Unlock]\<rparr>) = None"
proof
  fix k
  let ?W = "sample (answer (- 1) SSL_ERROR_WANT_READ 0) (0, None) None None"
  let ?W1 = "?W\<lparr>want_read_future := Some 0, next_future := 1, ssl_steps := 1,
              trace := [Lock, SSL_read 1, go_flushOutputBuffer, Unlock]\<rparr>"
  let ?W2 = "?W\<lparr>want_read_future := Some 0, next_future := 1, ssl_steps := 2,
              trace := [Lock, SSL_read 1, go_flushOutputBuffer, Unlock,
                        Lock, SSL_read 2, go_flushOutputBuffer, Unlock]\<rparr>"
  have r1: "read ?W [1] = ((0, Some (on_WANT_READ_fill 0)), ?W1)"
    by (simp add: read_def step_def getErrorHandler_def log_def sample_def answer_def Let_def)
  have r2: "read ?W1 [2, 3] = ((0, Some (on_WANT_READ_wait 0)), ?W2)"
    by (simp add: read_def step_def getErrorHandler_def log_def sample_def answer_def Let_def
        numeral_2_eq_2)
  have "net_read ?W2 = (\<lambda>i. (0, None))" by (simp add: sample_def)
  from fill_spin[OF this] have "fillInputBuffer j ?W2 = None" for j .
  then have f: "run k (on_WANT_READ_fill 0) ?W2 = None" by (simp split: nat.splits)
  have w: "run k (on_WANT_READ_wait 0) ?W2 = None" by (simp add: sample_def)
  from r1 r2 f w show "read ?W [1] = ((0, Some (on_WANT_READ_fill 0)), ?W1) \<and>
      read ?W1 [2, 3] = ((0, Some (on_WANT_READ_wait 0)), ?W2) \<and>
      run k (on_WANT_READ_fill 0) ?W2 = None \<and> run k (on_WANT_READ_wait 0) ?W2 = None"
    by simp
qed

subsection \<open>Zero-length buffers\<close>

text \<open>
  C9. \<^verbatim>\<open>Read\<close> and \<^verbatim>\<open>Write\<close> with a zero-length buffer return \<^verbatim>\<open>(0, nil)\<close> at once,
  on every connection: the connection is left as it was, so no engine step was made,
  the mutex was not taken (the trace is unchanged), and no fuel is needed.
\<close>

theorem Read_Write_zero_length:
  "Read k c [] = Some ((0, None), c) \<and> Write k c [] = Some ((0, None), c)"
  by (simp add: Read_def Write_def)

subsection \<open>EOF of the transport during a fill\<close>

text \<open>
  C10, as the code has it. When the read of the transport reports \<^verbatim>\<open>io.EOF\<close>,
  \<^verbatim>\<open>fillInputBuffer\<close> marks the inbound BIO and returns what \<^verbatim>\<open>c.Close()\<close> returns
  (first conjunct; if that \<^verbatim>\<open>Close\<close> does not return, neither does the fill). The
  handler that called the fill hands that result to the stalled operation, with
  \<^verbatim>\<open>tryAgain\<close> in the place of nil, after clearing \<^verbatim>\<open>want_read_future\<close> and setting the
  future (last conjunct). On a connection that was not shut down, a fill that returns
  has set the flag, run the shutdown loop (at least one engine step) and closed the
  transport once, as the last thing it did, and its result is the group of the loop's
  result and the transport's (second conjunct); and the fill does return, with the
  transport closed and the result handed to the stalled operation, when the two
  shutdown steps of that \<^verbatim>\<open>Close\<close> do not ask for input, whatever the futures are: the
  fill's own future is pending then (third conjunct). On a connection whose flag is
  already set, as in a fill started by the shutdown loop of \<^verbatim>\<open>Close\<close> itself, that
  \<^verbatim>\<open>Close\<close> is a no-op: the fill returns nil, and neither an engine step nor a close of
  the transport is made (fourth conjunct).
\<close>

theorem fill_at_EOF_calls_Close:
  assumes "net_read c (reads c) = (n, Some EOF)"
  shows "fillInputBuffer k c =
           Close k (c\<lparr>reads := Suc (reads c), into_ssl_eof := True,
                      trace := trace c @ [ReadFromOnce, MarkEOF]\<rparr>) \<and>
         (\<not> is_shutdown c \<and> fillInputBuffer k c = Some (e, c')
          \<longrightarrow> is_shutdown c' \<and> into_ssl_eof c' \<and> Suc (ssl_steps c) \<le> ssl_steps c' \<and>
              closes c' = Suc (closes c) \<and> last (trace c') = conn_Close \<and>
              (\<exists>e1 c1. shutdownLoop k
                          (c\<lparr>reads := Suc (reads c), into_ssl_eof := True, is_shutdown := True,
                             trace := trace c @ [ReadFromOnce, MarkEOF, Lock, Unlock]\<rparr>) =
                          Some (e1, c1) \<and>
                        e = Finalize (Add (Add [] e1) (net_close c (closes c))))) \<and>
         (\<not> is_shutdown c \<and> \<not> asks_input (ssl c (ssl_steps c)) \<and>
          \<not> asks_input (ssl c (Suc (ssl_steps c)))
          \<longrightarrow> (\<exists>j r c1. fillInputBuffer j c = Some (r, c1) \<and> is_shutdown c1 \<and>
                         closes c1 = Suc (closes c) \<and> last (trace c1) = conn_Close \<and>
                         run (Suc j) (on_WANT_READ_fill f) c =
                           Some (if r \<noteq> None then r else Some tryAgain,
                                 c1\<lparr>want_read_future := None,
                                    futures := (futures c1)
                                      (f := Some (if r \<noteq> None then r else Some tryAgain)),
                                    trace := trace c1 @ [Lock, Unlock]\<rparr>))) \<and>
         (is_shutdown c
          \<longrightarrow> fillInputBuffer k c =
                Some (None, c\<lparr>reads := Suc (reads c), into_ssl_eof := True,
                               trace := trace c @ [ReadFromOnce, MarkEOF, Lock, Unlock]\<rparr>)) \<and>
         run (Suc k) (on_WANT_READ_fill f) c =
           (case Close k (c\<lparr>reads := Suc (reads c), into_ssl_eof := True,
                            trace := trace c @ [ReadFromOnce, MarkEOF]\<rparr>) of
              None \<Rightarrow> None
            | Some (r, c1) \<Rightarrow>
                Some (if r \<noteq> None then r else Some tryAgain,
                      c1\<lparr>want_read_future := None,
                         futures := (futures c1)(f := Some (if r \<noteq> None then r else Some tryAgain)),
                         trace := trace c1 @ [Lock, Unlock]\<rparr>))"
proof -
  let ?m = "c\<lparr>reads := Suc (reads c), into_ssl_eof := True,
                      trace := trace c @ [ReadFromOnce, MarkEOF]\<rparr>"
  have eq: "fillInputBuffer k c = Close k ?m" for k
    using assms by (subst fill_unfold) simp
  have shut: "fillInputBuffer k c =
                Some (None, c\<lparr>reads := Suc (reads c), into_ssl_eof := True,
                               trace := trace c @ [ReadFromOnce, MarkEOF, Lock, Unlock]\<rparr>)"
    if "is_shutdown c"
    unfolding eq using that by (simp add: Close_shut)
  have open_conn: "is_shutdown c' \<and> into_ssl_eof c' \<and> Suc (ssl_steps c) \<le> ssl_steps c' \<and>
              closes c' = Suc (closes c) \<and> last (trace c') = conn_Close \<and>
              (\<exists>e1 c1. shutdownLoop k
                          (c\<lparr>reads := Suc (reads c), into_ssl_eof := True, is_shutdown := True,
                             trace := trace c @ [ReadFromOnce, MarkEOF, Lock, Unlock]\<rparr>) =
                          Some (e1, c1) \<and>
                        e = Finalize (Add (Add [] e1) (net_close c (closes c))))"
    if a: "\<not> is_shutdown c \<and> fillInputBuffer k c = Some (e, c')" for k e c'
  proof -
    let ?c0 = "c\<lparr>reads := Suc (reads c), into_ssl_eof := True, is_shutdown := True,
                             trace := trace c @ [ReadFromOnce, MarkEOF, Lock, Unlock]\<rparr>"
    have c0: "log Unlock ((log Lock ?m)\<lparr>is_shutdown := True\<rparr>) = ?c0" by (simp add: log_def)
    from a eq have cl: "Close k ?m = Some (e, c')" by simp
    with a obtain e1 c1 where sl: "shutdownLoop_from k 0 ?c0 = Some (e1, c1)"
      and e: "e = Finalize (Add (Add [] e1) (net_close c1 (closes c1)))"
      and c': "c' = c1\<lparr>closes := Suc (closes c1), trace := trace c1 @ [conn_Close]\<rparr>"
      unfolding Close.simps[of k ?m] c0 Let_def
      by (auto simp: log_def conn_Close_call_def split: option.splits)
    have shut0: "is_shutdown ?c0" by simp
    from frame_all(2)[OF sl] have fr: "is_shutdown c1" "closes c1 = closes c" "into_ssl_eof c1"
      "net_close c1 = net_close c"
      by (simp_all add: frame_def)
    from loop_bound[OF shut0 sl] have st: "Suc (ssl_steps c) \<le> ssl_steps c1" by simp
    show ?thesis
      using fr st c' e sl by (simp add: shutdownLoop_def)
  qed
  have handler: "run (Suc k) (on_WANT_READ_fill f) c =
           (case Close k ?m of
              None \<Rightarrow> None
            | Some (r, c1) \<Rightarrow>
                Some (if r \<noteq> None then r else Some tryAgain,
                      c1\<lparr>want_read_future := None,
                         futures := (futures c1)(f := Some (if r \<noteq> None then r else Some tryAgain)),
                         trace := trace c1 @ [Lock, Unlock]\<rparr>))" for k
    by (simp add: eq Let_def log_def split: option.splits)
  have returns: "\<exists>j r c1. fillInputBuffer j c = Some (r, c1) \<and> is_shutdown c1 \<and>
                         closes c1 = Suc (closes c) \<and> last (trace c1) = conn_Close \<and>
                         run (Suc j) (on_WANT_READ_fill f) c =
                           Some (if r \<noteq> None then r else Some tryAgain,
                                 c1\<lparr>want_read_future := None,
                                    futures := (futures c1)
                                      (f := Some (if r \<noteq> None then r else Some tryAgain)),
                                    trace := trace c1 @ [Lock, Unlock]\<rparr>)"
    if a: "\<not> is_shutdown c \<and> \<not> asks_input (ssl c (ssl_steps c)) \<and>
          \<not> asks_input (ssl c (Suc (ssl_steps c)))"
  proof -
    from a have "\<not> asks_input (ssl ?m (ssl_steps ?m))"
      "\<not> asks_input (ssl ?m (Suc (ssl_steps ?m)))" by simp_all
    from Close_no_input_total[OF this, of 0] obtain r c1 where
      cl: "Close (Suc (Suc 0)) ?m = Some (r, c1)" by auto
    then have fl: "fillInputBuffer (Suc (Suc 0)) c = Some (r, c1)" by (simp add: eq)
    from open_conn[of "Suc (Suc 0)" r c1] a fl have
      "is_shutdown c1" "closes c1 = Suc (closes c)" "last (trace c1) = conn_Close" by simp_all
    moreover from handler[of "Suc (Suc 0)"] cl have
      "run (Suc (Suc (Suc 0))) (on_WANT_READ_fill f) c =
         Some (if r \<noteq> None then r else Some tryAgain,
               c1\<lparr>want_read_future := None,
                  futures := (futures c1)(f := Some (if r \<noteq> None then r else Some tryAgain)),
                  trace := trace c1 @ [Lock, Unlock]\<rparr>)"
      by simp
    ultimately show ?thesis using fl by blast
  qed
  show ?thesis using eq[of k] shut open_conn[of k e c'] returns handler[of k] by blast
qed

theorem fill_at_EOF_calls_Close_witness:
  "read (sample_then (answer (- 1) SSL_ERROR_WANT_READ 0) (answer 1 SSL_ERROR_NONE 0)
           (0, Some EOF) None None) [1, 2] =
     ((0, Some (on_WANT_READ_fill 0)),
      (sample_then (answer (- 1) SSL_ERROR_WANT_READ 0) (answer 1 SSL_ERROR_NONE 0)
           (0, Some EOF) None None)
        \<lparr>want_read_future := Some 0, next_future := 1, ssl_steps := 1,
         trace := [Lock, SSL_read 2, go_flushOutputBuffer, Unlock]\<rparr>) \<and>
   \<not> is_shutdown
      ((sample_then (answer (- 1) SSL_ERROR_WANT_READ 0) (answer 1 SSL_ERROR_NONE 0)
           (0, Some EOF) None None)
        \<lparr>want_read_future := Some 0, next_future := 1, ssl_steps := 1,
         trace := [Lock, SSL_read 2, go_flushOutputBuffer, Unlock]\<rparr>) \<and>
   \<not> asks_input (answer 1 SSL_ERROR_NONE 0) \<and>
   fillInputBuffer 0
      ((sample_then (answer (- 1) SSL_ERROR_WANT_READ 0) (answer 1 SSL_ERROR_NONE 0)
           (0, Some EOF) None None)
        \<lparr>want_read_future := Some 0, next_future := 1, ssl_steps := 1,
         trace := [Lock, SSL_read 2, go_flushOutputBuffer, Unlock]\<rparr>) =
     Some (None,
      (sample_then (answer (- 1) SSL_ERROR_WANT_READ 0) (answer 1 SSL_ERROR_NONE 0)
           (0, Some EOF) None None)
        \<lparr>is_shutdown := True, want_read_future := Some 0, next_future := 1, into_ssl_eof := True,
         ssl_steps := 2, reads := 1, writes := 1, closes := 1,
         trace := [Lock, SSL_read 2, go_flushOutputBuffer, Unlock, ReadFromOnce, MarkEOF,
                   Lock, Unlock, Lock, SSL_shutdown, Unlock, WriteTo, conn_Close]\<rparr>) \<and>
   (\<exists>j r c1.
      fillInputBuffer j
        ((sample_then (answer (- 1) SSL_ERROR_WANT_READ 0) (answer 1 SSL_ERROR_NONE 0)
            (0, Some EOF) None None)
          \<lparr>want_read_future := Some 0, next_future := 1, ssl_steps := 1,
           trace := [Lock, SSL_read 2, go_flushOutputBuffer, Unlock]\<rparr>) = Some (r, c1) \<and>
      is_shutdown c1 \<and> closes c1 = 1 \<and> last (trace c1) = conn_Close) \<and>
   map_option fst
     (Read 1 (sample_then (answer (- 1) SSL_ERROR_WANT_READ 0) (answer 1 SSL_ERROR_NONE 0)
                (0, Some EOF) None None) [1, 2]) = Some (0, Some EOF)"
proof -
  let ?R = "sample_then (answer (- 1) SSL_ERROR_WANT_READ 0) (answer 1 SSL_ERROR_NONE 0)
           (0, Some EOF) None None"
  let ?F = "?R\<lparr>want_read_future := Some 0, next_future := 1, ssl_steps := 1,
         trace := [Lock, SSL_read 2, go_flushOutputBuffer, Unlock]\<rparr>"
  let ?E = "?R\<lparr>is_shutdown := True, want_read_future := Some 0, next_future := 1, into_ssl_eof := True,
         ssl_steps := 2, reads := 1, writes := 1, closes := 1,
         trace := [Lock, SSL_read 2, go_flushOutputBuffer, Unlock, ReadFromOnce, MarkEOF,
                   Lock, Unlock, Lock, SSL_shutdown, Unlock, WriteTo, conn_Close]\<rparr>"
  have rd: "read ?R [1, 2] = ((0, Some (on_WANT_READ_fill 0)), ?F)"
    by (simp add: read_def step_def getErrorHandler_def log_def sample_then_def sample_def
        answer_def Let_def numeral_2_eq_2)
  have h: "net_read ?F (reads ?F) = (0, Some EOF)" by (simp add: sample_then_def sample_def)
  have ns: "\<not> is_shutdown ?F" by (simp add: sample_then_def sample_def)
  have na: "\<not> asks_input (answer 1 SSL_ERROR_NONE 0)" by (simp add: asks_input_def answer_def)
  then have na2: "\<not> asks_input (ssl ?F (ssl_steps ?F))" "\<not> asks_input (ssl ?F (Suc (ssl_steps ?F)))"
    by (simp_all add: sample_then_def sample_def)
  have cl: "Close 0 (?F\<lparr>reads := Suc (reads ?F), into_ssl_eof := True,
                        trace := trace ?F @ [ReadFromOnce, MarkEOF]\<rparr>) = Some (None, ?E)"
    by (simp add: Close.simps shutdownLoop_from.simps shutdown_def step_def log_def
        flushOutputBuffer_def conn_Close_call_def Finalize_def Add_def sample_then_def sample_def
        answer_def numeral_2_eq_2)
  note t = fill_at_EOF_calls_Close [OF h, where k = 0 and f = 0]
  from t cl have fl: "fillInputBuffer 0 ?F = Some (None, ?E)"
    by simp
  from t ns na2 have "\<exists>j r c1. fillInputBuffer j ?F = Some (r, c1) \<and> is_shutdown c1 \<and>
      closes c1 = Suc (closes ?F) \<and> last (trace c1) = conn_Close"
    by blast
  then have ret: "\<exists>j r c1. fillInputBuffer j ?F = Some (r, c1) \<and> is_shutdown c1 \<and>
      closes c1 = 1 \<and> last (trace c1) = conn_Close"
    by (simp add: sample_then_def sample_def)
  have run: "map_option fst (Read 1 ?R [1, 2]) = Some (0, Some EOF)"
    by (simp add: Read_def Read_loop.simps read_def step_def getErrorHandler_def log_def
        fillInputBuffer.simps ReadFromOnce_call_def MarkEOF_call_def Close.simps
        shutdownLoop_from.simps shutdown_def flushOutputBuffer_def conn_Close_call_def
        Finalize_def Add_def sample_then_def sample_def answer_def Let_def)
  from rd ns na fl ret run show ?thesis by simp
qed

text \<open>
  C10 as stated has the EOF always take the full path of \<^verbatim>\<open>Close\<close>, and the stalled
  operation always receive its result. Two runs where it does not.
  \<^item> On a connection whose flag is set the \<^verbatim>\<open>Close\<close> is a no-op, and such a fill
    happens inside \<^verbatim>\<open>Close\<close>. Take an engine that asks for input at the first
    \<^verbatim>\<open>SSL_shutdown\<close> and returns 0 at the second, and a transport at EOF. The first
    attempt of the shutdown loop leaves the handler that fills (first conjunct); that
    fill meets EOF and returns nil, with the engine's step counter and the transport's
    close counter as they were (second conjunct). The whole \<^verbatim>\<open>Close\<close> (third and
    fourth conjunct) returns nil and closes the transport once, itself, at the end.
  \<^item> On a connection that is not shut down, take an engine that asks for input at every
    step and a transport at EOF. \<^verbatim>\<open>Read\<close> stalls and gets the handler that fills
    (fifth conjunct); the fill meets EOF and calls \<^verbatim>\<open>Close\<close>, whose \<^verbatim>\<open>SSL_shutdown\<close>
    asks for input while the fill's own future is pending and unset: the shutdown loop
    waits on that future, and neither the fill nor its handler returns, with any amount
    of fuel (last two conjuncts). The transport is not closed and the stalled operation
    receives nothing.
\<close>

theorem fill_at_EOF_counterexample:
  "shutdown
     ((sample_then (answer (- 1) SSL_ERROR_WANT_READ 0) (answer 0 SSL_ERROR_SYSCALL 0)
         (0, Some EOF) None None)
        \<lparr>is_shutdown := True, trace := [Lock, Unlock]\<rparr>) =
     (Some (on_WANT_READ_fill 0),
      (sample_then (answer (- 1) SSL_ERROR_WANT_READ 0) (answer 0 SSL_ERROR_SYSCALL 0)
         (0, Some EOF) None None)
        \<lparr>is_shutdown := True, want_read_future := Some 0, next_future := 1, ssl_steps := 1,
         trace := [Lock, Unlock, Lock, SSL_shutdown, go_flushOutputBuffer, Unlock]\<rparr>) \<and>
   fillInputBuffer 0
     ((sample_then (answer (- 1) SSL_ERROR_WANT_READ 0) (answer 0 SSL_ERROR_SYSCALL 0)
         (0, Some EOF) None None)
        \<lparr>is_shutdown := True, want_read_future := Some 0, next_future := 1, ssl_steps := 1,
         trace := [Lock, Unlock, Lock, SSL_shutdown, go_flushOutputBuffer, Unlock]\<rparr>) =
     Some (None,
           (sample_then (answer (- 1) SSL_ERROR_WANT_READ 0) (answer 0 SSL_ERROR_SYSCALL 0)
              (0, Some EOF) None None)
             \<lparr>is_shutdown := True, want_read_future := Some 0, next_future := 1,
              into_ssl_eof := True, ssl_steps := 1, reads := 1, closes := 0,
              trace := [Lock, Unlock, Lock, SSL_shutdown, go_flushOutputBuffer, Unlock,
                        ReadFromOnce, MarkEOF, Lock, Unlock]\<rparr>) \<and>
   map_option fst
     (Close 1 (sample_then (answer (- 1) SSL_ERROR_WANT_READ 0) (answer 0 SSL_ERROR_SYSCALL 0)
                 (0, Some EOF) None None)) = Some None \<and>
   map_option (trace \<circ> snd)
     (Close 1 (sample_then (answer (- 1) SSL_ERROR_WANT_READ 0) (answer 0 SSL_ERROR_SYSCALL 0)
                 (0, Some EOF) None None)) =
     Some [Lock, Unlock,
           Lock, SSL_shutdown, go_flushOutputBuffer, Unlock,
           ReadFromOnce, MarkEOF, Lock, Unlock, Lock, Unlock,
           Lock, SSL_shutdown, Unlock, WriteTo,
           conn_Close] \<and>
   read (sample (answer (- 1) SSL_ERROR_WANT_READ 0) (0, Some EOF) None None) [1, 2] =
     ((0, Some (on_WANT_READ_fill 0)),
      (sample (answer (- 1) SSL_ERROR_WANT_READ 0) (0, Some EOF) None None)
        \<lparr>want_read_future := Some 0, next_future := 1, ssl_steps := 1,
         trace := [Lock, SSL_read 2, go_flushOutputBuffer, Unlock]\<rparr>) \<and>
   (\<forall>k. fillInputBuffer k
          ((sample (answer (- 1) SSL_ERROR_WANT_READ 0) (0, Some EOF) None None)
             \<lparr>want_read_future := Some 0, next_future := 1, ssl_steps := 1,
              trace := [Lock, SSL_read 2, go_flushOutputBuffer, Unlock]\<rparr>) = None) \<and>
   (\<forall>k. run k (on_WANT_READ_fill 0)
          ((sample (answer (- 1) SSL_ERROR_WANT_READ 0) (0, Some EOF) None None)
             \<lparr>want_read_future := Some 0, next_future := 1, ssl_steps := 1,
              trace := [Lock, SSL_read 2, go_flushOutputBuffer, Unlock]\<rparr>) = None)"
proof -
  let ?R = "sample (answer (- 1) SSL_ERROR_WANT_READ 0) (0, Some EOF) None None"
  let ?F = "?R\<lparr>want_read_future := Some 0, next_future := 1, ssl_steps := 1,
              trace := [Lock, SSL_read 2, go_flushOutputBuffer, Unlock]\<rparr>"
  let ?M = "?F\<lparr>reads := Suc (reads ?F), into_ssl_eof := True,
               trace := trace ?F @ [ReadFromOnce, MarkEOF]\<rparr>"
  have shut_part:
    "shutdown
     ((sample_then (answer (- 1) SSL_ERROR_WANT_READ 0) (answer 0 SSL_ERROR_SYSCALL 0)
         (0, Some EOF) None None)
        \<lparr>is_shutdown := True, trace := [Lock, Unlock]\<rparr>) =
     (Some (on_WANT_READ_fill 0),
      (sample_then (answer (- 1) SSL_ERROR_WANT_READ 0) (answer 0 SSL_ERROR_SYSCALL 0)
         (0, Some EOF) None None)
        \<lparr>is_shutdown := True, want_read_future := Some 0, next_future := 1, ssl_steps := 1,
         trace := [Lock, Unlock, Lock, SSL_shutdown, go_flushOutputBuffer, Unlock]\<rparr>) \<and>
   fillInputBuffer 0
     ((sample_then (answer (- 1) SSL_ERROR_WANT_READ 0) (answer 0 SSL_ERROR_SYSCALL 0)
         (0, Some EOF) None None)
        \<lparr>is_shutdown := True, want_read_future := Some 0, next_future := 1, ssl_steps := 1,
         trace := [Lock, Unlock, Lock, SSL_shutdown, go_flushOutputBuffer, Unlock]\<rparr>) =
     Some (None,
           (sample_then (answer (- 1) SSL_ERROR_WANT_READ 0) (answer 0 SSL_ERROR_SYSCALL 0)
              (0, Some EOF) None None)
             \<lparr>is_shutdown := True, want_read_future := Some 0, next_future := 1,
              into_ssl_eof := True, ssl_steps := 1, reads := 1, closes := 0,
              trace := [Lock, Unlock, Lock, SSL_shutdown, go_flushOutputBuffer, Unlock,
                        ReadFromOnce, MarkEOF, Lock, Unlock]\<rparr>) \<and>
   map_option fst
     (Close 1 (sample_then (answer (- 1) SSL_ERROR_WANT_READ 0) (answer 0 SSL_ERROR_SYSCALL 0)
                 (0, Some EOF) None None)) = Some None \<and>
   map_option (trace \<circ> snd)
     (Close 1 (sample_then (answer (- 1) SSL_ERROR_WANT_READ 0) (answer 0 SSL_ERROR_SYSCALL 0)
                 (0, Some EOF) None None)) =
     Some [Lock, Unlock,
           Lock, SSL_shutdown, go_flushOutputBuffer, Unlock,
           ReadFromOnce, MarkEOF, Lock, Unlock, Lock, Unlock,
           Lock, SSL_shutdown, Unlock, WriteTo,
           conn_Close]"
    by (simp add: Close.simps shutdownLoop_from.simps fillInputBuffer.simps shutdown_def step_def
        getErrorHandler_def log_def ReadFromOnce_call_def MarkEOF_call_def conn_Close_call_def
        flushOutputBuffer_def Finalize_def Add_def sample_then_def sample_def answer_def Let_def)
  have rd: "read ?R [1, 2] = ((0, Some (on_WANT_READ_fill 0)), ?F)"
    by (simp add: read_def step_def getErrorHandler_def log_def sample_def answer_def Let_def
        numeral_2_eq_2)
  have wait: "Close k ?M = None" for k
    by (rule Close_waits[of _ 0]) (simp_all add: sample_def asks_input_def answer_def)
  have fl: "fillInputBuffer k ?F = None" for k
    by (subst fill_unfold) (simp add: sample_def wait[unfolded sample_def, simplified])
  have hd: "run k (on_WANT_READ_fill 0) ?F = None" for k
    using fl by (simp split: nat.splits)
  from shut_part rd fl hd show ?thesis by blast
qed

end
